theory Spec2Isabelle
  imports Main "HOL-Library.Word"
begin

unbundle bit_operations_syntax

section \<open>Go library functions used by route.go\<close>

text \<open>
  The file \<^verbatim>\<open>serving/ingress/pkg/reconciler/ingress/resources/route.go\<close> builds OpenShift
  Routes from a Knative Ingress. Go strings are byte strings; they are modelled as
  \<^typ>\<open>string\<close>, one \<^typ>\<open>char\<close> per byte.
\<close>

subsection \<open>strings.Split with the separator "."\<close>

text \<open>
  \<^verbatim>\<open>strings.Split(s, ".")\<close> returns the substrings between the dots; a string without a
  dot (the empty string too) yields one segment. \<open>split_from cur s\<close> reads \<open>s\<close> with
  \<open>cur\<close> the segment read so far.
\<close>

fun split_from :: "string \<Rightarrow> string \<Rightarrow> string list" where
  "split_from cur [] = [cur]"
| "split_from cur (c # cs) =
     (if c = CHR ''.'' then cur # split_from [] cs else split_from (cur @ [c]) cs)"

definition split_dot :: "string \<Rightarrow> string list" where
  "split_dot s = split_from [] s"

text \<open>\<^verbatim>\<open>strings.Join(parts, ".")\<close>, to state that splitting loses nothing.\<close>

fun join_dot :: "string list \<Rightarrow> string" where
  "join_dot [] = []"
| "join_dot [p] = p"
| "join_dot (p # q # ps) = p @ CHR ''.'' # join_dot (q # ps)"

subsection \<open>fmt verbs\<close>

text \<open>\<^verbatim>\<open>%v\<close> of an integer: its decimal digits, with a minus sign when negative.\<close>

fun digits10 :: "nat \<Rightarrow> string" where
  "digits10 n =
     (if n < 10 then [''0123456789'' ! n]
      else digits10 (n div 10) @ [''0123456789'' ! (n mod 10)])"

declare digits10.simps [simp del]

definition sprint_int :: "int \<Rightarrow> string" where
  "sprint_int i = (if i < 0 then CHR ''-'' # digits10 (nat (- i)) else digits10 (nat i))"

text \<open>
  \<^verbatim>\<open>%x\<close> of a string, a byte slice or a byte array: two lower-case hexadecimal digits
  per byte.
\<close>

definition hex_byte :: "nat \<Rightarrow> string" where
  "hex_byte b = [''0123456789abcdef'' ! (b div 16 mod 16), ''0123456789abcdef'' ! (b mod 16)]"

definition sprint_hex :: "nat list \<Rightarrow> string" where
  "sprint_hex bs = concat (map hex_byte bs)"

definition bytes_of :: "string \<Rightarrow> nat list" where
  "bytes_of s = map of_char s"

subsection \<open>crypto/sha256.Sum256\<close>

text \<open>
  SHA-256 as FIPS 180-4 defines it. A 32-bit word is a natural number below \<open>2 ^ 32\<close>;
  addition wraps around explicitly.
\<close>

type_synonym u32 = nat
type_synonym hstate = "u32 \<times> u32 \<times> u32 \<times> u32 \<times> u32 \<times> u32 \<times> u32 \<times> u32"

definition add32 :: "u32 \<Rightarrow> u32 \<Rightarrow> u32" where
  "add32 x y = (x + y) mod 4294967296"

definition not32 :: "u32 \<Rightarrow> u32" where
  "not32 x = 4294967295 - x"

definition shr :: "nat \<Rightarrow> u32 \<Rightarrow> u32" where
  "shr n x = x div 2 ^ n"

definition rotr :: "nat \<Rightarrow> u32 \<Rightarrow> u32" where
  "rotr n x = x div 2 ^ n + (x mod 2 ^ n) * 2 ^ (32 - n)"

definition Ch :: "u32 \<Rightarrow> u32 \<Rightarrow> u32 \<Rightarrow> u32" where
  "Ch x y z = (x AND y) XOR (not32 x AND z)"

definition Maj :: "u32 \<Rightarrow> u32 \<Rightarrow> u32 \<Rightarrow> u32" where
  "Maj x y z = (x AND y) XOR (x AND z) XOR (y AND z)"

definition bsig0 :: "u32 \<Rightarrow> u32" where
  "bsig0 x = rotr 2 x XOR rotr 13 x XOR rotr 22 x"

definition bsig1 :: "u32 \<Rightarrow> u32" where
  "bsig1 x = rotr 6 x XOR rotr 11 x XOR rotr 25 x"

definition ssig0 :: "u32 \<Rightarrow> u32" where
  "ssig0 x = rotr 7 x XOR rotr 18 x XOR shr 3 x"

definition ssig1 :: "u32 \<Rightarrow> u32" where
  "ssig1 x = rotr 17 x XOR rotr 19 x XOR shr 10 x"

text \<open>The round constants and the initial hash value, in decimal.\<close>

definition K256 :: "u32 list" where
  "K256 =
     [1116352408, 1899447441, 3049323471, 3921009573, 961987163, 1508970993,
      2453635748, 2870763221, 3624381080, 310598401, 607225278, 1426881987,
      1925078388, 2162078206, 2614888103, 3248222580, 3835390401, 4022224774,
      264347078, 604807628, 770255983, 1249150122, 1555081692, 1996064986,
      2554220882, 2821834349, 2952996808, 3210313671, 3336571891, 3584528711,
      113926993, 338241895, 666307205, 773529912, 1294757372, 1396182291,
      1695183700, 1986661051, 2177026350, 2456956037, 2730485921, 2820302411,
      3259730800, 3345764771, 3516065817, 3600352804, 4094571909, 275423344,
      430227734, 506948616, 659060556, 883997877, 958139571, 1322822218,
      1537002063, 1747873779, 1955562222, 2024104815, 2227730452, 2361852424,
      2428436474, 2756734187, 3204031479, 3329325298]"

definition H256 :: "hstate" where
  "H256 =
     (1779033703, 3144134277, 1013904242, 2773480762, 1359893119, 2600822924,
      528734635, 1541459225)"

definition be64 :: "nat \<Rightarrow> nat list" where
  "be64 n = map (\<lambda>i. (n div 2 ^ (8 * i)) mod 256) [7, 6, 5, 4, 3, 2, 1, 0]"

text \<open>Padding: the byte 0x80, zero bytes up to 56 modulo 64, the bit length in 64 bits.\<close>

definition pad :: "nat list \<Rightarrow> nat list" where
  "pad m = m @ [128] @ replicate ((119 - length m mod 64) mod 64) 0
             @ be64 ((8 * length m) mod 2 ^ 64)"

fun be_words :: "nat list \<Rightarrow> u32 list" where
  "be_words (a # b # c # d # rest) =
     (((a * 256 + b) * 256 + c) * 256 + d) # be_words rest"
| "be_words _ = []"

text \<open>The message schedule, newest word first: \<open>W\<^sub>t\<close> from \<open>W\<^sub>t\<^sub>-\<^sub>2\<close>, \<open>W\<^sub>t\<^sub>-\<^sub>7\<close>, \<open>W\<^sub>t\<^sub>-\<^sub>1\<^sub>5\<close>, \<open>W\<^sub>t\<^sub>-\<^sub>1\<^sub>6\<close>.\<close>

fun expand :: "nat \<Rightarrow> u32 list \<Rightarrow> u32 list" where
  "expand 0 r = r"
| "expand (Suc n) r =
     expand n (add32 (add32 (add32 (ssig1 (r ! 1)) (r ! 6)) (ssig0 (r ! 14))) (r ! 15) # r)"

definition schedule :: "u32 list \<Rightarrow> u32 list" where
  "schedule blk = rev (expand 48 (rev blk))"

fun step :: "u32 \<Rightarrow> u32 \<Rightarrow> hstate \<Rightarrow> hstate" where
  "step t1 t2 (a, b, c, d, e, f, g, h) = (add32 t1 t2, a, b, c, add32 d t1, e, f, g)"

fun rnd :: "u32 \<times> u32 \<Rightarrow> hstate \<Rightarrow> hstate" where
  "rnd (k, w) (a, b, c, d, e, f, g, h) =
     step (add32 (add32 (add32 (add32 h (bsig1 e)) (Ch e f g)) k) w)
          (add32 (bsig0 a) (Maj a b c)) (a, b, c, d, e, f, g, h)"

fun hadd :: "hstate \<Rightarrow> hstate \<Rightarrow> hstate" where
  "hadd (a, b, c, d, e, f, g, h) (a', b', c', d', e', f', g', h') =
     (add32 a a', add32 b b', add32 c c', add32 d d',
      add32 e e', add32 f f', add32 g g', add32 h h')"

definition block :: "hstate \<Rightarrow> u32 list \<Rightarrow> hstate" where
  "block H blk = hadd H (fold rnd (zip K256 (schedule blk)) H)"

fun blocks :: "nat \<Rightarrow> hstate \<Rightarrow> u32 list \<Rightarrow> hstate" where
  "blocks 0 H ws = H"
| "blocks (Suc n) H ws = blocks n (block H (take 16 ws)) (drop 16 ws)"

definition be32 :: "u32 \<Rightarrow> nat list" where
  "be32 w = map (\<lambda>i. (w div 2 ^ (8 * i)) mod 256) [3, 2, 1, 0]"

fun hbytes :: "hstate \<Rightarrow> nat list" where
  "hbytes (a, b, c, d, e, f, g, h) = concat (map be32 [a, b, c, d, e, f, g, h])"

definition Sum256 :: "nat list \<Rightarrow> nat list" where
  "Sum256 m = hbytes (blocks (length (be_words (pad m)) div 16) H256 (be_words (pad m)))"

subsection \<open>kmeta.UnionMaps\<close>

text \<open>
  \<^verbatim>\<open>kmeta.UnionMaps\<close> returns a new map holding the entries of its arguments, values
  from later maps winning. Reading a nil map is reading an empty one, so a label map is
  its contents.
\<close>

type_synonym strmap = "string \<rightharpoonup> string"

definition UnionMaps :: "strmap \<Rightarrow> strmap \<Rightarrow> strmap" where
  "UnionMaps m1 m2 = m1 ++ m2"

subsection \<open>Maps that are shared and written\<close>

text \<open>
  A Go map value is a reference. The annotation map of an ingress is written through such
  a reference, so annotation maps live in a store: \<open>cells\<close> gives the contents at each
  address and \<open>next_free\<close> is the address the next \<^verbatim>\<open>make\<close> returns. A map variable is
  \<open>None\<close> (the nil map) or \<open>Some\<close> address.
\<close>

type_synonym addr = nat

record heap =
  cells :: "addr \<Rightarrow> strmap"
  next_free :: addr

datatype 'a outcome = Panic | Return 'a

text \<open>\<^verbatim>\<open>make(map[string]string)\<close>\<close>

definition make_map :: "heap \<Rightarrow> heap \<times> addr option" where
  "make_map h =
     (h\<lparr>cells := (cells h)(next_free h := Map.empty), next_free := Suc (next_free h)\<rparr>,
      Some (next_free h))"

text \<open>\<^verbatim>\<open>_, ok := m[k]\<close>: reading a nil map finds nothing.\<close>

fun map_has :: "heap \<Rightarrow> addr option \<Rightarrow> string \<Rightarrow> bool" where
  "map_has h None k = False"
| "map_has h (Some a) k = (cells h a k \<noteq> None)"

text \<open>\<^verbatim>\<open>m[k] = v\<close>: an assignment to an entry of a nil map is a run-time panic.\<close>

fun map_assign :: "heap \<Rightarrow> addr option \<Rightarrow> string \<Rightarrow> string \<Rightarrow> heap outcome" where
  "map_assign h None k v = Panic"
| "map_assign h (Some a) k v = Return (h\<lparr>cells := (cells h)(a := (cells h a)(k \<mapsto> v))\<rparr>)"

section \<open>Data model\<close>

text \<open>
  The fields of the Kubernetes objects that route.go reads or writes.
  \<^verbatim>\<open>metav1.ObjectMeta\<close> is embedded in both the Ingress and the Route.
\<close>

record ObjectMeta =
  Name :: string
  Namespace :: string
  UID :: string
  Labels :: strmap
  Annotations :: "addr option"

text \<open>
  The visibility of a rule, with the two values the networking API declares; route.go
  only compares it with the cluster-local one.
\<close>

datatype IngressVisibility = IngressVisibilityExternalIP | IngressVisibilityClusterLocal

text \<open>
  \<open>DeprecatedTimeout\<close> is a \<^verbatim>\<open>*metav1.Duration\<close>: nil, or a number of nanoseconds (an
  int64; route.go does no arithmetic on it that could overflow).
\<close>

record HTTPIngressPath =
  DeprecatedTimeout :: "int option"

record HTTPIngressRuleValue =
  Paths :: "HTTPIngressPath list"

record IngressRule =
  Hosts :: "string list"
  Visibility :: IngressVisibility
  HTTP :: "HTTPIngressRuleValue option"

record LoadBalancerIngressStatus =
  DomainInternal :: string

text \<open>\<open>LBIngress\<close> is the field \<^verbatim>\<open>Ingress\<close> of \<^verbatim>\<open>LoadBalancerStatus\<close>.\<close>

record LoadBalancerStatus =
  LBIngress :: "LoadBalancerIngressStatus list"

text \<open>
  \<open>Rules\<close> is \<^verbatim>\<open>ci.Spec.Rules\<close> and \<open>PublicLoadBalancer\<close> is
  \<^verbatim>\<open>ci.Status.PublicLoadBalancer\<close>, a pointer.
\<close>

record Ingress =
  IngressMeta :: ObjectMeta
  Rules :: "IngressRule list"
  PublicLoadBalancer :: "LoadBalancerStatus option"

definition GetAnnotations :: "Ingress \<Rightarrow> addr option" where
  "GetAnnotations ci = Annotations (IngressMeta ci)"

definition GetName :: "Ingress \<Rightarrow> string" where
  "GetName ci = Name (IngressMeta ci)"

definition GetUID :: "Ingress \<Rightarrow> string" where
  "GetUID ci = UID (IngressMeta ci)"

datatype IntOrString = FromInt int | FromString string

datatype TLSTerminationType =
  TLSTerminationEdge | TLSTerminationPassthrough | TLSTerminationReencrypt

datatype InsecureEdgeTerminationPolicyType =
  InsecureEdgeTerminationPolicyNone
| InsecureEdgeTerminationPolicyAllow
| InsecureEdgeTerminationPolicyRedirect

datatype WildcardPolicyType = WildcardPolicyNone | WildcardPolicySubdomain

record RoutePort =
  TargetPort :: IntOrString

text \<open>\<open>RefName\<close> is the field \<^verbatim>\<open>Name\<close> of \<^verbatim>\<open>RouteTargetReference\<close>; \<open>Weight\<close> is a \<^verbatim>\<open>*int32\<close>.\<close>

record RouteTargetReference =
  Kind :: string
  RefName :: string
  Weight :: "32 word option"

record TLSConfig =
  Termination :: TLSTerminationType
  InsecureEdgeTerminationPolicy :: InsecureEdgeTerminationPolicyType

record RouteSpec =
  Host :: string
  Port :: "RoutePort option"
  To :: RouteTargetReference
  TLS :: "TLSConfig option"
  WildcardPolicy :: WildcardPolicyType

record Route =
  RouteMeta :: ObjectMeta
  Spec :: RouteSpec

section \<open>Constants and configuration\<close>

definition TimeoutAnnotation :: string where
  "TimeoutAnnotation = ''haproxy.router.openshift.io/timeout''"

definition DisableRouteAnnotation :: string where
  "DisableRouteAnnotation = ''serving.knative.openshift.io/disableRoute''"

definition KourierHTTPPort :: string where
  "KourierHTTPPort = ''http2''"

datatype error = ErrNoValidLoadbalancerDomain

text \<open>
  What route.go takes from other packages and the file itself does not fix:
  \<^item> \<open>DefaultMaxRevisionTimeoutSeconds\<close>, the integer constant of
    \<^verbatim>\<open>knative.dev/serving/pkg/apis/config\<close>;
  \<^item> \<open>IngressLabelKey\<close>, the label key of \<^verbatim>\<open>knative.dev/networking/pkg/apis/networking\<close>;
  \<^item> \<open>FormatFloat\<close>, the text that \<^verbatim>\<open>%v\<close> writes for the float64 of
    \<^verbatim>\<open>Duration.Seconds()\<close>, as a function of the duration in nanoseconds. It is only
    consulted where that text depends on binary floating-point rounding or on the
    exponent form (see \<open>sprint_seconds\<close>).
\<close>

record extern =
  DefaultMaxRevisionTimeoutSeconds :: int
  IngressLabelKey :: string
  FormatFloat :: "int \<Rightarrow> string"

text \<open>\<^verbatim>\<open>var defaultTimeout = fmt.Sprintf("%vs", config.DefaultMaxRevisionTimeoutSeconds)\<close>\<close>

definition defaultTimeout :: "extern \<Rightarrow> string" where
  "defaultTimeout x = sprint_int (DefaultMaxRevisionTimeoutSeconds x) @ ''s''"

text \<open>
  \<^verbatim>\<open>fmt.Sprintf("%v", d.Seconds())\<close> for a duration of \<open>d\<close> nanoseconds. For a whole number
  of seconds the float64 is that integer exactly, and below one million in magnitude
  \<^verbatim>\<open>%v\<close> writes it without exponent: its decimal digits. Every other duration is
  delegated to \<open>FormatFloat\<close>.
\<close>

definition sprint_seconds :: "extern \<Rightarrow> int \<Rightarrow> string" where
  "sprint_seconds x d =
     (if d mod 1000000000 = 0 \<and> \<bar>d div 1000000000\<bar> < 1000000
      then sprint_int (d div 1000000000)
      else FormatFloat x d)"

section \<open>Route names\<close>

text \<open>
  \<^verbatim>\<open>func hashHost(host string) string {
      return fmt.Sprintf("%x", sha256.Sum256([]byte(host)))[0:6] }\<close>

  The digest has 32 bytes, so its hexadecimal form has 64 characters and the slice
  \<^verbatim>\<open>[0:6]\<close> is always in range (lemma \<open>length_sprint_hex_Sum256\<close> below).
\<close>

definition hashHost :: "string \<Rightarrow> string" where
  "hashHost host = take 6 (sprint_hex (Sum256 (bytes_of host)))"

text \<open>
  \<^verbatim>\<open>func routeName(uid, host string) string {
      return fmt.Sprintf("route-%s-%x", uid, hashHost(host)) }\<close>

  The verb for the hash is \<^verbatim>\<open>%x\<close>, and its argument is a string: fmt writes the bytes of
  that string in hexadecimal.
\<close>

definition routeName :: "string \<Rightarrow> string \<Rightarrow> string" where
  "routeName uid host = ''route-'' @ uid @ ''-'' @ sprint_hex (bytes_of (hashHost host))"

section \<open>makeRoute\<close>

text \<open>
  The value written for one path (lines 82 to 89 of route.go):
  \<^verbatim>\<open>fmt.Sprintf("%vs", rule.HTTP.Paths[i].DeprecatedTimeout.Duration.Seconds())\<close> when the
  path has a timeout, \<^verbatim>\<open>defaultTimeout\<close> otherwise.
\<close>

definition timeoutValue :: "extern \<Rightarrow> HTTPIngressPath \<Rightarrow> string" where
  "timeoutValue x p =
     (case DeprecatedTimeout p of
        Some d \<Rightarrow> sprint_seconds x d @ ''s''
      | None \<Rightarrow> defaultTimeout x)"

text \<open>The loop over \<^verbatim>\<open>rule.HTTP.Paths\<close>: each path assigns \<^verbatim>\<open>annotations[TimeoutAnnotation]\<close>.\<close>

fun setTimeouts :: "extern \<Rightarrow> HTTPIngressPath list \<Rightarrow> addr option \<Rightarrow> heap \<Rightarrow> heap outcome" where
  "setTimeouts x [] annotations h = Return h"
| "setTimeouts x (p # ps) annotations h =
     (case map_assign h annotations TimeoutAnnotation (timeoutValue x p) of
        Panic \<Rightarrow> Panic
      | Return h' \<Rightarrow> setTimeouts x ps annotations h')"

text \<open>
  The loop over \<^verbatim>\<open>ci.Status.PublicLoadBalancer.Ingress\<close> (lines 102 to 112), with the
  variables \<^verbatim>\<open>serviceName\<close> and \<^verbatim>\<open>namespace\<close> as the accumulator.
\<close>

fun resolveLoop :: "LoadBalancerIngressStatus list \<Rightarrow> string \<times> string \<Rightarrow> string \<times> string" where
  "resolveLoop [] (serviceName, namespace) = (serviceName, namespace)"
| "resolveLoop (lbIngress # rest) (serviceName, namespace) =
     (if DomainInternal lbIngress \<noteq> ''''
      then (if length (split_dot (DomainInternal lbIngress)) > 2
               \<and> split_dot (DomainInternal lbIngress) ! 2 = ''svc''
            then resolveLoop rest (split_dot (DomainInternal lbIngress) ! 0,
                                   split_dot (DomainInternal lbIngress) ! 1)
            else resolveLoop rest (serviceName, namespace))
      else resolveLoop rest (serviceName, namespace))"

definition resolveBackend :: "Ingress \<Rightarrow> string \<times> string" where
  "resolveBackend ci =
     (case PublicLoadBalancer ci of
        None \<Rightarrow> ('''', '''')
      | Some lb \<Rightarrow> resolveLoop (LBIngress lb) ('''', ''''))"

text \<open>The composite literal of lines 119 to 142.\<close>

definition newRoute ::
  "string \<Rightarrow> string \<Rightarrow> strmap \<Rightarrow> addr option \<Rightarrow> string \<Rightarrow> string \<Rightarrow> Route" where
  "newRoute name namespace labels annotations host serviceName =
     \<lparr>RouteMeta = \<lparr>Name = name, Namespace = namespace, UID = '''',
                   Labels = labels, Annotations = annotations\<rparr>,
      Spec = \<lparr>Host = host,
              Port = Some \<lparr>TargetPort = FromString KourierHTTPPort\<rparr>,
              To = \<lparr>Kind = ''Service'', RefName = serviceName, Weight = Some 100\<rparr>,
              TLS = Some \<lparr>Termination = TLSTerminationEdge,
                          InsecureEdgeTerminationPolicy = InsecureEdgeTerminationPolicyAllow\<rparr>,
              WildcardPolicy = WildcardPolicyNone\<rparr>\<rparr>"

text \<open>
  \<^verbatim>\<open>func makeRoute(ci *Ingress, host string, rule IngressRule) (*routev1.Route, error)\<close>.
  The result is the store after the call, the route (\<open>None\<close> for nil) and the error
  (\<open>None\<close> for nil); \<open>Panic\<close> stands for a run-time panic.
\<close>

definition makeRoute ::
  "extern \<Rightarrow> heap \<Rightarrow> Ingress \<Rightarrow> string \<Rightarrow> IngressRule
     \<Rightarrow> (heap \<times> Route option \<times> error option) outcome" where
  "makeRoute x h ci host rule =
     (case (case GetAnnotations ci of None \<Rightarrow> make_map h | Some a \<Rightarrow> (h, Some a)) of
        (h1, annotations) \<Rightarrow>
          if Visibility rule = IngressVisibilityClusterLocal then Return (h1, None, None)
          else if map_has h1 annotations DisableRouteAnnotation then Return (h1, None, None)
          else
            (case (case HTTP rule of
                     None \<Rightarrow> Return h1
                   | Some http \<Rightarrow> setTimeouts x (Paths http) annotations h1) of
               Panic \<Rightarrow> Panic
             | Return h2 \<Rightarrow>
                 (case resolveBackend ci of
                    (serviceName, namespace) \<Rightarrow>
                      if serviceName = '''' \<or> namespace = ''''
                      then Return (h2, None, Some ErrNoValidLoadbalancerDomain)
                      else Return (h2,
                        Some (newRoute (routeName (GetUID ci) host) namespace
                                (UnionMaps (Labels (IngressMeta ci))
                                   [IngressLabelKey x \<mapsto> GetName ci])
                                annotations host serviceName),
                        None))))"

section \<open>MakeRoutes\<close>

text \<open>
  The loops of \<^verbatim>\<open>MakeRoutes\<close> carry the store and the slice \<^verbatim>\<open>routes\<close>. A loop result
  is \<open>Inl\<close> of the error that made the function return early, or \<open>Inr\<close> of the routes so
  far.
\<close>

fun hostsLoop ::
  "extern \<Rightarrow> Ingress \<Rightarrow> IngressRule \<Rightarrow> string list \<Rightarrow> heap \<Rightarrow> Route list
     \<Rightarrow> (heap \<times> (error + Route list)) outcome" where
  "hostsLoop x ci rule [] h routes = Return (h, Inr routes)"
| "hostsLoop x ci rule (host # hosts) h routes =
     (if length (split_dot host) > 2 \<and> split_dot host ! 2 \<noteq> ''svc''
      then (case makeRoute x h ci host rule of
              Panic \<Rightarrow> Panic
            | Return (h', route, err) \<Rightarrow>
                (case err of
                   Some e \<Rightarrow> Return (h', Inl e)
                 | None \<Rightarrow>
                     (case route of
                        None \<Rightarrow> hostsLoop x ci rule hosts h' routes
                      | Some r \<Rightarrow> hostsLoop x ci rule hosts h' (routes @ [r]))))
      else hostsLoop x ci rule hosts h routes)"

fun rulesLoop ::
  "extern \<Rightarrow> Ingress \<Rightarrow> IngressRule list \<Rightarrow> heap \<Rightarrow> Route list
     \<Rightarrow> (heap \<times> (error + Route list)) outcome" where
  "rulesLoop x ci [] h routes = Return (h, Inr routes)"
| "rulesLoop x ci (rule # rules) h routes =
     (if Visibility rule = IngressVisibilityClusterLocal
      then rulesLoop x ci rules h routes
      else (case hostsLoop x ci rule (Hosts rule) h routes of
              Panic \<Rightarrow> Panic
            | Return (h', Inl e) \<Rightarrow> Return (h', Inl e)
            | Return (h', Inr routes') \<Rightarrow> rulesLoop x ci rules h' routes'))"

text \<open>
  \<^verbatim>\<open>func MakeRoutes(ci *Ingress) ([]*routev1.Route, error)\<close>: the store after the call,
  the slice (\<open>None\<close> for nil) and the error (\<open>None\<close> for nil).
\<close>

definition MakeRoutes ::
  "extern \<Rightarrow> heap \<Rightarrow> Ingress \<Rightarrow> (heap \<times> Route list option \<times> error option) outcome" where
  "MakeRoutes x h ci =
     (case rulesLoop x ci (Rules ci) h [] of
        Panic \<Rightarrow> Panic
      | Return (h', Inl e) \<Rightarrow> Return (h', None, Some e)
      | Return (h', Inr routes) \<Rightarrow> Return (h', Some routes, None))"

section \<open>Notions used to state the properties\<close>

subsection \<open>Hosts that get a route\<close>

text \<open>
  The pairs of a rule that is not cluster-local and one of its hosts whose split on "."
  has more than two segments, the third not being "svc", in rule and host order.
\<close>

definition externalHosts :: "Ingress \<Rightarrow> (IngressRule \<times> string) list" where
  "externalHosts ci =
     [(rule, host). rule \<leftarrow> Rules ci, Visibility rule \<noteq> IngressVisibilityClusterLocal,
                    host \<leftarrow> Hosts rule,
                    length (split_dot host) > 2 \<and> split_dot host ! 2 \<noteq> ''svc'']"

text \<open>
  Route construction invoked on a list of pairs, in order, each call starting from the
  store the previous one left: an error ends the run, a nil route is left out.
\<close>

fun collect ::
  "extern \<Rightarrow> Ingress \<Rightarrow> (IngressRule \<times> string) list \<Rightarrow> heap \<Rightarrow> Route list
     \<Rightarrow> (heap \<times> (error + Route list)) outcome" where
  "collect x ci [] h routes = Return (h, Inr routes)"
| "collect x ci ((rule, host) # rest) h routes =
     (case makeRoute x h ci host rule of
        Panic \<Rightarrow> Panic
      | Return (h', route, err) \<Rightarrow>
          (case err of
             Some e \<Rightarrow> Return (h', Inl e)
           | None \<Rightarrow>
               (case route of
                  None \<Rightarrow> collect x ci rest h' routes
                | Some r \<Rightarrow> collect x ci rest h' (routes @ [r]))))"

subsection \<open>What makeRoute returns host by host\<close>

text \<open>
  The results of \<open>makeRoute\<close> for every pair of a list, taken in order, each call
  starting from the store the previous one left; no result ends the list.
\<close>

fun invocations ::
  "extern \<Rightarrow> Ingress \<Rightarrow> (IngressRule \<times> string) list \<Rightarrow> heap
     \<Rightarrow> (heap \<times> Route option \<times> error option) list" where
  "invocations x ci [] h = []"
| "invocations x ci ((rule, host) # rest) h =
     (case makeRoute x h ci host rule of
        Panic \<Rightarrow> []
      | Return (h', route, err) \<Rightarrow> (h', route, err) # invocations x ci rest h')"

text \<open>The first result with an error, with the store of that call.\<close>

fun first_error ::
  "(heap \<times> Route option \<times> error option) list \<Rightarrow> (heap \<times> error) option" where
  "first_error [] = None"
| "first_error ((h', route, err) # rest) =
     (case err of None \<Rightarrow> first_error rest | Some e \<Rightarrow> Some (h', e))"

text \<open>The routes of the results that have one, in order.\<close>

fun produced :: "(heap \<times> Route option \<times> error option) list \<Rightarrow> Route list" where
  "produced [] = []"
| "produced ((h', route, err) # rest) =
     (case route of None \<Rightarrow> produced rest | Some r \<Rightarrow> r # produced rest)"

text \<open>The store after the last result.\<close>

fun final_heap :: "heap \<Rightarrow> (heap \<times> Route option \<times> error option) list \<Rightarrow> heap" where
  "final_heap h [] = h"
| "final_heap h ((h', route, err) # rest) = final_heap h' rest"

subsection \<open>Decimal numerals\<close>

text \<open>The number that a string of decimal digits denotes.\<close>

definition digit_value :: "char \<Rightarrow> nat" where
  "digit_value c = of_char c - 48"

definition decimal_value :: "string \<Rightarrow> nat" where
  "decimal_value s = foldl (\<lambda>acc c. 10 * acc + digit_value c) 0 s"

subsection \<open>Load-balancer endpoints\<close>

text \<open>
  What one endpoint yields: with a non-empty internal domain whose split has more than
  two segments and third segment "svc", the first segment as the service name and the
  second as the namespace.
\<close>

definition endpointBackend :: "LoadBalancerIngressStatus \<Rightarrow> (string \<times> string) option" where
  "endpointBackend lb =
     (if DomainInternal lb \<noteq> '''' \<and> length (split_dot (DomainInternal lb)) > 2
         \<and> split_dot (DomainInternal lb) ! 2 = ''svc''
      then Some (split_dot (DomainInternal lb) ! 0, split_dot (DomainInternal lb) ! 1)
      else None)"

definition endpoints :: "Ingress \<Rightarrow> LoadBalancerIngressStatus list" where
  "endpoints ci = (case PublicLoadBalancer ci of None \<Rightarrow> [] | Some lb \<Rightarrow> LBIngress lb)"

text \<open>What the qualifying endpoints yield, in order.\<close>

definition qualifying :: "LoadBalancerIngressStatus list \<Rightarrow> (string \<times> string) list" where
  "qualifying lbs = List.map_filter endpointBackend lbs"

subsection \<open>Example objects\<close>

text \<open>
  An ingress with owner id "abc123", one external rule with the host "foo.example.com"
  and a path timeout of 600 seconds, and a load-balancer endpoint with the internal
  domain "kourier.ns.svc.cluster.local". Its annotation map is nil. The configured
  default timeout is 300 seconds.
\<close>

definition example_extern :: extern where
  "example_extern =
     \<lparr>DefaultMaxRevisionTimeoutSeconds = 300,
      IngressLabelKey = ''networking.internal.knative.dev/ingress'',
      FormatFloat = (\<lambda>d. ''?'')\<rparr>"

definition empty_heap :: heap where
  "empty_heap = \<lparr>cells = (\<lambda>a. Map.empty), next_free = 0\<rparr>"

definition example_rule :: IngressRule where
  "example_rule =
     \<lparr>Hosts = [''foo.example.com''], Visibility = IngressVisibilityExternalIP,
      HTTP = Some \<lparr>Paths = [\<lparr>DeprecatedTimeout = Some 600000000000\<rparr>]\<rparr>\<rparr>"

definition example_ingress :: Ingress where
  "example_ingress =
     \<lparr>IngressMeta = \<lparr>Name = ''ing'', Namespace = ''default'', UID = ''abc123'',
                     Labels = Map.empty, Annotations = None\<rparr>,
      Rules = [example_rule],
      PublicLoadBalancer =
        Some \<lparr>LBIngress = [\<lparr>DomainInternal = ''kourier.ns.svc.cluster.local''\<rparr>]\<rparr>\<rparr>"

text \<open>
  The same ingress with a non-nil annotation map, held at address 0 of a store whose
  map at that address has the one entry "owner" = "team-a".
\<close>

definition annotated_heap :: heap where
  "annotated_heap =
     \<lparr>cells = (\<lambda>a. Map.empty)(0 := [''owner'' \<mapsto> ''team-a'']), next_free = 1\<rparr>"

definition annotated_ingress :: Ingress where
  "annotated_ingress =
     example_ingress\<lparr>IngressMeta := (IngressMeta example_ingress)\<lparr>Annotations := Some 0\<rparr>\<rparr>"

text \<open>A store whose map at address 0 holds the disable marker.\<close>

definition disabled_heap :: heap where
  "disabled_heap =
     \<lparr>cells = (\<lambda>a. Map.empty)(0 := [DisableRouteAnnotation \<mapsto> ''true'']), next_free = 1\<rparr>"

text \<open>
  The route that \<open>makeRoute\<close> builds for a host of the example ingress, and the store it
  leaves when it starts from the empty one: the fresh map at address 0 holds the timeout
  annotation.
\<close>

definition example_route :: "string \<Rightarrow> Route" where
  "example_route host =
     newRoute (routeName ''abc123'' host) ''ns''
       [''networking.internal.knative.dev/ingress'' \<mapsto> ''ing''] (Some 0) host ''kourier''"

definition heap_with_timeout :: "string \<Rightarrow> heap" where
  "heap_with_timeout v =
     \<lparr>cells = (\<lambda>a. Map.empty)(0 := [TimeoutAnnotation \<mapsto> v]), next_free = 1\<rparr>"

text \<open>Variants of the example ingress in its load-balancer status.\<close>

definition two_endpoint_ingress :: Ingress where
  "two_endpoint_ingress =
     example_ingress\<lparr>PublicLoadBalancer :=
       Some \<lparr>LBIngress = [\<lparr>DomainInternal = ''kourier.ns.svc.cluster.local''\<rparr>,
                          \<lparr>DomainInternal = ''.ns.svc''\<rparr>]\<rparr>\<rparr>"

definition kourier_ingress :: Ingress where
  "kourier_ingress =
     example_ingress\<lparr>PublicLoadBalancer :=
       Some \<lparr>LBIngress =
         [\<lparr>DomainInternal = ''kourier.knative-serving-ingress.svc.cluster.local''\<rparr>]\<rparr>\<rparr>"

text \<open>
  A cluster-local rule, and an external rule with a cluster-internal host, an apex domain
  and two paths, the last one without timeout.
\<close>

definition local_rule :: IngressRule where
  "local_rule =
     \<lparr>Hosts = [''foo.default'', ''foo.default.svc'', ''foo.default.svc.cluster.local''],
      Visibility = IngressVisibilityClusterLocal,
      HTTP = Some \<lparr>Paths = [\<lparr>DeprecatedTimeout = None\<rparr>]\<rparr>\<rparr>"

definition mixed_rule :: IngressRule where
  "mixed_rule =
     \<lparr>Hosts = [''bar.example.com'', ''myksvc.myproject.svc.cluster.local'', ''foo.com''],
      Visibility = IngressVisibilityExternalIP,
      HTTP = Some \<lparr>Paths = [\<lparr>DeprecatedTimeout = Some 600000000000\<rparr>,
                              \<lparr>DeprecatedTimeout = None\<rparr>]\<rparr>\<rparr>"

definition mixed_ingress :: Ingress where
  "mixed_ingress = example_ingress\<lparr>Rules := [local_rule, example_rule, mixed_rule]\<rparr>"

text \<open>
  A cluster-local rule that lists the host of the external example rule, and the ingress
  with both rules.
\<close>

definition shared_local_rule :: IngressRule where
  "shared_local_rule =
     \<lparr>Hosts = [''foo.example.com''], Visibility = IngressVisibilityClusterLocal,
      HTTP = None\<rparr>"

definition shared_host_ingress :: Ingress where
  "shared_host_ingress = example_ingress\<lparr>Rules := [shared_local_rule, example_rule]\<rparr>"

section \<open>Properties of the library model\<close>

lemma split_from_not_Nil: "split_from cur s \<noteq> []"
  by (induction s arbitrary: cur) auto

lemma split_dot_not_Nil: "split_dot s \<noteq> []"
  by (simp add: split_dot_def split_from_not_Nil)

text \<open>
  The segments of a string have no dot, and joined with dots they give the string back:
  \<open>split_dot\<close> is the split at every dot.
\<close>

lemma join_dot_Cons: "ps \<noteq> [] \<Longrightarrow> join_dot (p # ps) = p @ CHR ''.'' # join_dot ps"
  by (cases ps) simp_all

lemma join_split_from: "join_dot (split_from cur s) = cur @ s"
  by (induction s arbitrary: cur) (simp_all add: join_dot_Cons split_from_not_Nil)

lemma join_split_dot: "join_dot (split_dot s) = s"
  by (simp add: split_dot_def join_split_from)

lemma split_from_no_dot:
  "CHR ''.'' \<notin> set cur \<Longrightarrow> \<forall>p \<in> set (split_from cur s). CHR ''.'' \<notin> set p"
proof (induction s arbitrary: cur)
  case Nil
  then show ?case by simp
next
  case (Cons c s)
  show ?case
  proof (cases "c = CHR ''.''")
    case True
    then show ?thesis using Cons.prems Cons.IH [of "[]"] by simp
  next
    case False
    then show ?thesis using Cons.prems Cons.IH [of "cur @ [c]"] by simp
  qed
qed

lemma split_dot_no_dot: "p \<in> set (split_dot s) \<Longrightarrow> CHR ''.'' \<notin> set p"
  using split_from_no_dot [of "[]" s] by (simp add: split_dot_def)

text \<open>
  \<open>digits10\<close> writes the decimal numeral of a number: digits only, no leading zero,
  denoting that number. \<open>sprint_seconds\<close> writes whole seconds below one million with it.
\<close>

lemma decimal_value_snoc:
  "decimal_value (s @ [c]) = 10 * decimal_value s + digit_value c"
  by (simp add: decimal_value_def)

lemma digit_char_cases:
  assumes "d < (10::nat)"
  shows "d = 0 \<or> d = 1 \<or> d = 2 \<or> d = 3 \<or> d = 4 \<or> d = 5 \<or> d = 6 \<or> d = 7 \<or> d = 8 \<or> d = 9"
  using assms by arith

lemma digit_value_nth: "d < 10 \<Longrightarrow> digit_value (''0123456789'' ! d) = d"
  using digit_char_cases [of d] by (auto simp: digit_value_def)

lemma digit_nth_in: "d < 10 \<Longrightarrow> ''0123456789'' ! d \<in> set ''0123456789''"
  using digit_char_cases [of d] by auto

lemma digit_nth_zero: "d < 10 \<Longrightarrow> (''0123456789'' ! d = CHR ''0'') = (d = 0)"
  using digit_char_cases [of d] by auto

lemma digits10_not_Nil: "digits10 n \<noteq> []"
  by (subst digits10.simps) simp

lemma decimal_value_digits10: "decimal_value (digits10 n) = n"
proof (induction n rule: digits10.induct)
  case (1 n)
  show ?case
  proof (cases "n < 10")
    case True
    then show ?thesis
      by (subst digits10.simps) (simp add: decimal_value_def digit_value_nth)
  next
    case False
    then have "decimal_value (digits10 (n div 10)) = n div 10" using "1.IH" by simp
    with False show ?thesis
      by (subst digits10.simps) (simp add: decimal_value_snoc digit_value_nth)
  qed
qed

lemma set_digits10: "set (digits10 n) \<subseteq> set ''0123456789''"
proof (induction n rule: digits10.induct)
  case (1 n)
  show ?case
  proof (cases "n < 10")
    case True
    then show ?thesis
      using digit_nth_in [of n] by (subst digits10.simps) simp
  next
    case False
    then have "set (digits10 (n div 10)) \<subseteq> set ''0123456789''" using "1.IH" by simp
    moreover have "''0123456789'' ! (n mod 10) \<in> set ''0123456789''"
      by (rule digit_nth_in) simp
    ultimately show ?thesis using False
      by (subst digits10.simps) simp
  qed
qed

lemma hd_digits10: "n \<noteq> 0 \<Longrightarrow> hd (digits10 n) \<noteq> CHR ''0''"
proof (induction n rule: digits10.induct)
  case (1 n)
  show ?case
  proof (cases "n < 10")
    case True
    then show ?thesis
      using "1.prems" digit_nth_zero [of n] by (subst digits10.simps) simp
  next
    case False
    then have "n div 10 \<noteq> 0" by simp
    then have "hd (digits10 (n div 10)) \<noteq> CHR ''0''" using "1.IH" False by simp
    then show ?thesis using False
      by (subst digits10.simps) (simp add: digits10_not_Nil)
  qed
qed

lemma sprint_seconds_whole:
  assumes "0 \<le> s" and "s < 1000000"
  shows "sprint_seconds x (s * 1000000000) = digits10 (nat s)"
  using assms by (simp add: sprint_seconds_def sprint_int_def)

lemma sprint_seconds_whole_neg:
  assumes "s < 0" and "- 1000000 < s"
  shows "sprint_seconds x (s * 1000000000) = CHR ''-'' # digits10 (nat (- s))"
  using assms by (simp add: sprint_seconds_def sprint_int_def)

lemma sprint_seconds_other:
  assumes "d mod 1000000000 \<noteq> 0 \<or> 1000000 \<le> \<bar>d div 1000000000\<bar>"
  shows "sprint_seconds x d = FormatFloat x d"
  using assms by (auto simp: sprint_seconds_def)

lemma length_hbytes: "length (hbytes s) = 32"
  by (induction s rule: hbytes.induct) (simp add: be32_def)

lemma length_sprint_hex: "length (sprint_hex bs) = 2 * length bs"
  by (induction bs) (simp_all add: sprint_hex_def hex_byte_def)

lemma length_sprint_hex_Sum256: "length (sprint_hex (Sum256 m)) = 64"
  by (simp add: length_sprint_hex Sum256_def length_hbytes)

lemma length_hashHost: "length (hashHost host) = 6"
  by (simp add: hashHost_def length_sprint_hex_Sum256)

lemma expand_numeral:
  "expand (numeral k) r =
     expand (pred_numeral k)
       (add32 (add32 (add32 (ssig1 (r ! 1)) (r ! 6)) (ssig0 (r ! 14))) (r ! 15) # r)"
  by (simp add: numeral_eq_Suc)

lemma replicate_numeral: "replicate (numeral k) x = x # replicate (pred_numeral k) x"
  by (simp add: numeral_eq_Suc)

lemma blocks_numeral:
  "blocks (numeral k) H ws = blocks (pred_numeral k) (block H (take 16 ws)) (drop 16 ws)"
  by (simp add: numeral_eq_Suc)

lemmas sha256_eval =
  bytes_of_def pad_def be64_def replicate_numeral expand_numeral blocks_numeral
  Sum256_def block_def schedule_def K256_def be32_def H256_def add32_def
  bsig1_def bsig0_def ssig0_def ssig1_def shr_def rotr_def Ch_def Maj_def not32_def

text \<open>The test vector of FIPS 180-4 for the message "abc".\<close>

lemma Sum256_abc:
  "sprint_hex (Sum256 (bytes_of ''abc'')) =
     ''ba7816bf8f01cfea414140de5dae2223b00361a396177a9cb410ff61f20015ad''"
  by (simp add: sha256_eval sprint_hex_def hex_byte_def)

lemma Sum256_foo_example_com:
  "Sum256 (bytes_of ''foo.example.com'') =
     [69, 163, 53, 222, 209, 41, 243, 2, 104, 242, 251, 85, 58, 51, 247, 47,
      86, 36, 87, 131, 228, 202, 226, 218, 248, 125, 18, 222, 189, 176, 141, 223]"
  by (simp add: sha256_eval)

lemma hashHost_foo_example_com: "hashHost ''foo.example.com'' = ''45a335''"
  by (simp add: hashHost_def Sum256_foo_example_com sprint_hex_def hex_byte_def)

section \<open>Properties of makeRoute and MakeRoutes\<close>

lemma setTimeouts_Some:
  "setTimeouts x ps (Some a) h =
     Return (if ps = [] then h
             else h\<lparr>cells := (cells h)(a := (cells h a)(TimeoutAnnotation \<mapsto> timeoutValue x (last ps)))\<rparr>)"
  by (induction ps arbitrary: h) auto

lemma makeRoute_no_panic: "makeRoute x h ci host rule \<noteq> Panic"
  by (auto simp: makeRoute_def make_map_def setTimeouts_Some split: option.splits prod.splits outcome.splits)

lemma collect_append:
  "collect x ci (cs1 @ cs2) h routes =
     (case collect x ci cs1 h routes of
        Panic \<Rightarrow> Panic
      | Return (h', Inl e) \<Rightarrow> Return (h', Inl e)
      | Return (h', Inr rs) \<Rightarrow> collect x ci cs2 h' rs)"
  by (induction cs1 arbitrary: h routes) (auto split: outcome.splits option.splits)

lemma hostsLoop_collect:
  "hostsLoop x ci rule hosts h routes =
     collect x ci [(rule, host). host \<leftarrow> hosts,
                    length (split_dot host) > 2 \<and> split_dot host ! 2 \<noteq> ''svc''] h routes"
  by (induction hosts arbitrary: h routes) (auto split: outcome.splits option.splits)

lemma rulesLoop_collect:
  "rulesLoop x ci rules h routes =
     collect x ci [(rule, host). rule \<leftarrow> rules, Visibility rule \<noteq> IngressVisibilityClusterLocal,
                    host \<leftarrow> Hosts rule,
                    length (split_dot host) > 2 \<and> split_dot host ! 2 \<noteq> ''svc''] h routes"
  by (induction rules arbitrary: h routes)
     (auto simp: collect_append hostsLoop_collect split: outcome.splits sum.splits)

lemma qualifying_Nil: "qualifying [] = []"
  by (simp add: qualifying_def map_filter_simps)

lemma qualifying_Cons:
  "qualifying (lb # lbs) =
     (case endpointBackend lb of None \<Rightarrow> qualifying lbs | Some b \<Rightarrow> b # qualifying lbs)"
  by (simp add: qualifying_def map_filter_simps split: option.splits)

lemma resolveLoop_last:
  "resolveLoop lbs acc = (if qualifying lbs = [] then acc else last (qualifying lbs))"
proof (induction lbs arbitrary: acc)
  case Nil
  then show ?case by (cases acc) (simp add: qualifying_Nil)
next
  case (Cons lb lbs)
  obtain s n where acc: "acc = (s, n)" by (cases acc)
  show ?case
    unfolding acc
    by (simp add: Cons.IH qualifying_Cons endpointBackend_def)
qed

lemma resolveBackend_last:
  "resolveBackend ci =
     (if qualifying (endpoints ci) = [] then ('''', '''') else last (qualifying (endpoints ci)))"
  by (simp add: resolveBackend_def endpoints_def resolveLoop_last qualifying_Nil split: option.splits)

lemma map_has_make_map: "map_has (fst (make_map h)) (snd (make_map h)) k = False"
  by (simp add: make_map_def)

lemmas example_defs = example_extern_def empty_heap_def example_rule_def example_ingress_def

lemma digits10_numeral:
  "digits10 (numeral k) =
     (if numeral k < (10::nat) then [''0123456789'' ! numeral k]
      else digits10 (numeral k div 10) @ [''0123456789'' ! (numeral k mod 10)])"
  by (rule digits10.simps)

lemma collect_invocations:
  "(case collect x ci cs h routes of
      Panic \<Rightarrow> Panic
    | Return (h', Inl e) \<Rightarrow> Return (h', None, Some e)
    | Return (h', Inr rs) \<Rightarrow> Return (h', Some rs, None)) =
   (case first_error (invocations x ci cs h) of
      Some (h', e) \<Rightarrow> Return (h', None, Some e)
    | None \<Rightarrow> Return (final_heap h (invocations x ci cs h),
                       Some (routes @ produced (invocations x ci cs h)), None))"
proof (induction cs arbitrary: h routes)
  case Nil
  show ?case by simp
next
  case (Cons c cs)
  obtain rule host where c: "c = (rule, host)" by (cases c)
  obtain h1 route err where m: "makeRoute x h ci host rule = Return (h1, route, err)"
    using makeRoute_no_panic [of x h ci host rule]
    by (cases "makeRoute x h ci host rule") auto
  show ?case
  proof (cases err)
    case (Some e)
    then show ?thesis by (simp add: c m)
  next
    case None
    show ?thesis
    proof (cases route)
      case None
      then show ?thesis using \<open>err = None\<close> Cons.IH [of h1 routes]
        by (simp add: c m cong: option.case_cong)
    next
      case (Some r)
      then show ?thesis using \<open>err = None\<close> Cons.IH [of h1 "routes @ [r]"]
        by (simp add: c m cong: option.case_cong)
    qed
  qed
qed

lemma MakeRoutes_collect:
  "MakeRoutes x h ci =
     (case collect x ci (externalHosts ci) h [] of
        Panic \<Rightarrow> Panic
      | Return (h', Inl e) \<Rightarrow> Return (h', None, Some e)
      | Return (h', Inr routes) \<Rightarrow> Return (h', Some routes, None))"
  by (simp add: MakeRoutes_def rulesLoop_collect externalHosts_def)

lemma MakeRoutes_success_routes:
  assumes "MakeRoutes x h ci = Return (h', Some rs, err)"
  shows "rs = produced (invocations x ci (externalHosts ci) h)"
  using assms collect_invocations [of x ci "externalHosts ci" h "[]"]
  by (auto simp: MakeRoutes_collect split: option.splits outcome.splits sum.splits)

lemma set_externalHosts:
  "(rule, host) \<in> set (externalHosts ci) \<longleftrightarrow>
     rule \<in> set (Rules ci) \<and> Visibility rule \<noteq> IngressVisibilityClusterLocal
     \<and> host \<in> set (Hosts rule)
     \<and> length (split_dot host) > 2 \<and> split_dot host ! 2 \<noteq> ''svc''"
  by (auto simp: externalHosts_def)

lemma makeRoute_Host:
  "makeRoute x h ci host rule = Return (h', Some r, err) \<Longrightarrow> Host (Spec r) = host"
  by (auto simp: makeRoute_def newRoute_def split: option.splits prod.splits if_splits outcome.splits)

lemma produced_hosts:
  "r \<in> set (produced (invocations x ci cs h)) \<Longrightarrow> Host (Spec r) \<in> snd ` set cs"
proof (induction cs arbitrary: h)
  case Nil
  then show ?case by simp
next
  case (Cons c cs)
  obtain rule host where c: "c = (rule, host)" by (cases c)
  obtain h1 route err where m: "makeRoute x h ci host rule = Return (h1, route, err)"
    using makeRoute_no_panic [of x h ci host rule]
    by (cases "makeRoute x h ci host rule") auto
  show ?case
  proof (cases route)
    case None
    then show ?thesis using Cons.prems Cons.IH [of h1] by (simp add: c m)
  next
    case (Some r')
    then have "Host (Spec r') = host" using m makeRoute_Host by blast
    then show ?thesis using Some Cons.prems Cons.IH [of h1] by (auto simp: c m)
  qed
qed

lemma makeRoute_marker:
  assumes "makeRoute x h ci host rule = Return (h', route, err)"
  shows "map_has h' (GetAnnotations ci) DisableRouteAnnotation
           = map_has h (GetAnnotations ci) DisableRouteAnnotation"
  using assms
  by (cases "GetAnnotations ci")
     (auto simp: makeRoute_def make_map_def setTimeouts_Some TimeoutAnnotation_def
        DisableRouteAnnotation_def
      split: option.splits prod.splits if_splits)

lemma makeRoute_enabled:
  assumes "\<not> map_has h (GetAnnotations ci) DisableRouteAnnotation"
    and "Visibility rule \<noteq> IngressVisibilityClusterLocal"
    and "makeRoute x h ci host rule = Return (h', route, None)"
  shows "\<exists>r. route = Some r \<and> Host (Spec r) = host"
  using assms
  by (cases "GetAnnotations ci")
     (auto simp: makeRoute_def make_map_def setTimeouts_Some newRoute_def
      split: option.splits prod.splits if_splits)

lemma makeRoute_disabled:
  assumes "map_has h (GetAnnotations ci) DisableRouteAnnotation"
  shows "makeRoute x h ci host rule = Return (h, None, None)"
  using assms
  by (cases "GetAnnotations ci") (auto simp: makeRoute_def)

lemma collect_disabled:
  "map_has h (GetAnnotations ci) DisableRouteAnnotation \<Longrightarrow>
     collect x ci cs h routes = Return (h, Inr routes)"
  by (induction cs) (auto simp: makeRoute_disabled)

lemma collect_enabled_hosts:
  assumes "\<not> map_has h (GetAnnotations ci) DisableRouteAnnotation"
    and "\<forall>c \<in> set cs. Visibility (fst c) \<noteq> IngressVisibilityClusterLocal"
    and "collect x ci cs h routes = Return (h', Inr rs)"
  shows "map (\<lambda>r. Host (Spec r)) rs = map (\<lambda>r. Host (Spec r)) routes @ map snd cs"
  using assms
proof (induction cs arbitrary: h routes)
  case Nil
  then show ?case by simp
next
  case (Cons c cs)
  obtain rule host where c: "c = (rule, host)" by (cases c)
  obtain h1 route err where m: "makeRoute x h ci host rule = Return (h1, route, err)"
    using makeRoute_no_panic [of x h ci host rule]
    by (cases "makeRoute x h ci host rule") auto
  have err: "err = None" using Cons.prems(3) by (cases err) (simp_all add: c m)
  have vis: "Visibility rule \<noteq> IngressVisibilityClusterLocal" using Cons.prems(2) by (simp add: c)
  obtain r where r: "route = Some r" "Host (Spec r) = host"
    using makeRoute_enabled [OF Cons.prems(1) vis] m err by blast
  have en: "\<not> map_has h1 (GetAnnotations ci) DisableRouteAnnotation"
    using makeRoute_marker [OF m] Cons.prems(1) by simp
  have rest: "collect x ci cs h1 (routes @ [r]) = Return (h', Inr rs)"
    using Cons.prems(3) by (simp add: c m err r)
  have "map (\<lambda>r. Host (Spec r)) rs = map (\<lambda>r. Host (Spec r)) (routes @ [r]) @ map snd cs"
    using Cons.IH [OF en _ rest] Cons.prems(2) by simp
  then show ?case by (simp add: c r)
qed

lemma externalHosts_visible:
  "\<forall>c \<in> set (externalHosts ci). Visibility (fst c) \<noteq> IngressVisibilityClusterLocal"
  by (auto simp: externalHosts_def)

lemma MakeRoutes_enabled_hosts:
  assumes "\<not> map_has h (GetAnnotations ci) DisableRouteAnnotation"
    and "MakeRoutes x h ci = Return (h', Some rs, err)"
  shows "map (\<lambda>r. Host (Spec r)) rs = map snd (externalHosts ci)"
proof -
  have "collect x ci (externalHosts ci) h [] = Return (h', Inr rs)"
    using assms(2)
    by (auto simp: MakeRoutes_collect split: outcome.splits sum.splits)
  from collect_enabled_hosts [OF assms(1) externalHosts_visible this]
  show ?thesis by simp
qed

lemma MakeRoutes_disabled:
  "map_has h (GetAnnotations ci) DisableRouteAnnotation \<Longrightarrow>
     MakeRoutes x h ci = Return (h, Some [], None)"
  by (simp add: MakeRoutes_collect collect_disabled)

lemma MakeRoutes_route_origin:
  assumes "MakeRoutes x h ci = Return (h', Some rs, err)" and "r \<in> set rs"
  shows "\<exists>rule. (rule, Host (Spec r)) \<in> set (externalHosts ci)"
proof -
  have "rs = produced (invocations x ci (externalHosts ci) h)"
    using assms(1) by (rule MakeRoutes_success_routes)
  then have "Host (Spec r) \<in> snd ` set (externalHosts ci)"
    using assms(2) produced_hosts by blast
  then show ?thesis by force
qed

lemma MakeRoutes_error_origin:
  assumes "MakeRoutes x h ci = Return (h', rs, Some e)"
  shows "externalHosts ci \<noteq> []"
  using assms by (auto simp: MakeRoutes_collect)

text \<open>\<open>makeRoute\<close> does not read the rules of the ingress; a cluster-local rule adds nothing.\<close>

lemma makeRoute_Rules:
  "makeRoute x h (ci\<lparr>Rules := rs\<rparr>) host rule = makeRoute x h ci host rule"
proof -
  have "GetAnnotations (ci\<lparr>Rules := rs\<rparr>) = GetAnnotations ci"
    and "resolveBackend (ci\<lparr>Rules := rs\<rparr>) = resolveBackend ci"
    and "GetUID (ci\<lparr>Rules := rs\<rparr>) = GetUID ci"
    and "GetName (ci\<lparr>Rules := rs\<rparr>) = GetName ci"
    and "IngressMeta (ci\<lparr>Rules := rs\<rparr>) = IngressMeta ci"
    by (simp_all add: GetAnnotations_def resolveBackend_def GetUID_def GetName_def)
  then show ?thesis unfolding makeRoute_def by (simp only:)
qed

lemma collect_Rules:
  "collect x (ci\<lparr>Rules := rs\<rparr>) cs h routes = collect x ci cs h routes"
  by (induction cs arbitrary: h routes)
     (auto simp: makeRoute_Rules split: outcome.splits option.splits)

lemma rulesLoop_drop_local:
  assumes "Visibility rule = IngressVisibilityClusterLocal"
  shows "rulesLoop x ci (rs1 @ rule # rs2) h routes = rulesLoop x ci (rs1 @ rs2) h routes"
  using assms by (simp add: rulesLoop_collect)

lemma MakeRoutes_drop_local:
  assumes "Visibility rule = IngressVisibilityClusterLocal"
    and "Rules ci = rs1 @ rule # rs2"
  shows "MakeRoutes x h ci = MakeRoutes x h (ci\<lparr>Rules := rs1 @ rs2\<rparr>)"
  using assms
  by (simp add: MakeRoutes_def rulesLoop_collect collect_Rules)

section \<open>Evaluating the example objects\<close>

lemma digits10_0: "digits10 0 = ''0''"
  by (simp add: digits10.simps)

lemma digits10_1: "digits10 (Suc 0) = ''1''"
  by (simp add: digits10.simps)

lemmas route_eval =
  example_defs annotated_heap_def annotated_ingress_def makeRoute_def resolveBackend_def
  GetAnnotations_def GetName_def GetUID_def make_map_def setTimeouts_Some split_dot_def
  timeoutValue_def sprint_seconds_def sprint_int_def defaultTimeout_def
  digits10_numeral digits10_0 digits10_1

lemmas more_eval =
  two_endpoint_ingress_def kourier_ingress_def local_rule_def mixed_rule_def
  mixed_ingress_def endpoints_def endpointBackend_def qualifying_def externalHosts_def

lemma makeRoute_example:
  "makeRoute example_extern empty_heap example_ingress ''foo.example.com'' example_rule =
     Return (heap_with_timeout ''600s'', Some (example_route ''foo.example.com''), None)"
  by (simp add: route_eval UnionMaps_def example_route_def heap_with_timeout_def)

lemma makeRoute_mixed_example:
  "makeRoute example_extern empty_heap example_ingress ''bar.example.com'' mixed_rule =
     Return (heap_with_timeout ''300s'', Some (example_route ''bar.example.com''), None)"
  by (simp add: route_eval more_eval UnionMaps_def example_route_def heap_with_timeout_def)

lemma map_snd_hosts:
  "map snd [(rule, host). host \<leftarrow> hs, P host] = [host. host \<leftarrow> hs, P host]"
  by (induction hs) auto

lemma map_snd_rules:
  "map snd [(rule, host). rule \<leftarrow> rs, V rule, host \<leftarrow> H rule, P host]
     = [host. rule \<leftarrow> rs, V rule, host \<leftarrow> H rule, P host]"
  by (induction rs) (auto simp: map_snd_hosts)

section \<open>The claims\<close>

subsection \<open>C1: the name of a route\<close>

text \<open>
  For every owner id and host the name is \<open>route-\<close>, the owner id, a dash and the
  hexadecimal form of the \<^emph>\<open>bytes of\<close> the six-character hash: twelve characters, each
  pair spelling one character of the hash.
\<close>

lemma routeName_shape:
  "routeName uid host = ''route-'' @ uid @ ''-'' @ sprint_hex (bytes_of (hashHost host))
   \<and> length (hashHost host) = 6
   \<and> length (sprint_hex (bytes_of (hashHost host))) = 12"
  by (simp add: routeName_def length_hashHost length_sprint_hex bytes_of_def)

text \<open>
  C1 says that \<open>routeName\<close> returns \<open>route-<ownerID>-<t>\<close> with \<open>t\<close> the first six
  hexadecimal characters of the SHA-256 digest of the host, so that owner id "abc123"
  gives "route-abc123-" and exactly six hexadecimal characters. For the owner id
  "abc123" and the host "foo.example.com" the six characters are "45a335", and the code
  returns "route-abc123-343561333335": the suffix has twelve characters, "34" for "4",
  "35" for "5", "61" for "a", and so on.
\<close>

theorem routeName_abc123_foo_example_com:
  "hashHost ''foo.example.com'' = ''45a335''
   \<and> routeName ''abc123'' ''foo.example.com'' = ''route-abc123-343561333335''"
  by (simp add: routeName_def hashHost_foo_example_com sprint_hex_def hex_byte_def bytes_of_def)

subsection \<open>C2: what makeRoute leaves of the ingress\<close>

text \<open>
  Whenever the ingress has an annotation map, no skip condition holds and the rule
  declares HTTP paths, the call writes the timeout annotation into that very map, whether
  it then returns a route or the error.
\<close>

lemma makeRoute_writes_ingress_map:
  assumes "GetAnnotations ci = Some a"
    and "Visibility rule \<noteq> IngressVisibilityClusterLocal"
    and "\<not> map_has h (Some a) DisableRouteAnnotation"
    and "HTTP rule = Some http" and "Paths http \<noteq> []"
  shows "\<exists>r e. makeRoute x h ci host rule =
           Return (h\<lparr>cells := (cells h)(a := (cells h a)
                      (TimeoutAnnotation \<mapsto> timeoutValue x (last (Paths http))))\<rparr>, r, e)"
  using assms
  by (auto simp: makeRoute_def setTimeouts_Some split: prod.splits)

text \<open>
  C2 says that \<open>makeRoute\<close> and \<open>MakeRoutes\<close> leave the ingress unchanged, its annotation
  map holding the same entries after a call as before. \<open>makeRoute\<close> takes the map of the
  ingress itself and assigns the timeout annotation in it. For the example ingress with
  the annotation map "owner" = "team-a" (at address 0), the map of the ingress holds the
  timeout annotation after the call, when the call returns a route and also when it
  returns the error.
\<close>

theorem makeRoute_writes_ingress_annotations:
  "GetAnnotations annotated_ingress = Some 0
   \<and> cells annotated_heap 0 = [''owner'' \<mapsto> ''team-a'']
   \<and> (case makeRoute example_extern annotated_heap annotated_ingress ''foo.example.com''
              example_rule of
         Panic \<Rightarrow> None
       | Return (h', route, err) \<Rightarrow> Some (cells h' 0, err))
      = Some ([''owner'' \<mapsto> ''team-a'', TimeoutAnnotation \<mapsto> ''600s''], None)
   \<and> (case makeRoute example_extern annotated_heap
              (annotated_ingress\<lparr>PublicLoadBalancer := None\<rparr>) ''foo.example.com''
              example_rule of
         Panic \<Rightarrow> None
       | Return (h', route, err) \<Rightarrow> Some (cells h' 0, err))
      = Some ([''owner'' \<mapsto> ''team-a'', TimeoutAnnotation \<mapsto> ''600s''],
              Some ErrNoValidLoadbalancerDomain)"
  by (simp add: route_eval DisableRouteAnnotation_def)

subsection \<open>C3: resolving the backend\<close>

text \<open>
  C3 as stated, that \<open>makeRoute\<close> returns \<open>ErrNoValidLoadbalancerDomain\<close> if and only if
  no endpoint yields both a non-empty service name and a non-empty namespace, fails: with
  the endpoints "kourier.ns.svc.cluster.local" and ".ns.svc" the first endpoint yields
  the service "kourier" and the namespace "ns", the second qualifies too and wins with an
  empty service name, and \<open>makeRoute\<close> returns the error. In the other direction, with
  no endpoint at all and a cluster-local rule, \<open>makeRoute\<close> returns no error: the skip
  comes first.
\<close>

theorem makeRoute_error_with_resolvable_endpoint:
  "endpoints two_endpoint_ingress =
     [\<lparr>DomainInternal = ''kourier.ns.svc.cluster.local''\<rparr>, \<lparr>DomainInternal = ''.ns.svc''\<rparr>]
   \<and> endpointBackend \<lparr>DomainInternal = ''kourier.ns.svc.cluster.local''\<rparr>
        = Some (''kourier'', ''ns'')
   \<and> (case makeRoute example_extern empty_heap two_endpoint_ingress ''foo.example.com''
              example_rule of
         Panic \<Rightarrow> None
       | Return (h', route, err) \<Rightarrow> Some (route, err))
      = Some (None, Some ErrNoValidLoadbalancerDomain)
   \<and> endpoints (example_ingress\<lparr>PublicLoadBalancer := None\<rparr>) = []
   \<and> (case makeRoute example_extern empty_heap (example_ingress\<lparr>PublicLoadBalancer := None\<rparr>)
              ''foo.default.svc'' local_rule of
         Panic \<Rightarrow> None
       | Return (h', route, err) \<Rightarrow> Some (route, err))
      = Some (None, None)"
  by (simp add: route_eval more_eval)

text \<open>
  C3, amended: the scan goes through every endpoint and the last qualifying endpoint
  wins (the resolved pair is what the last qualifying endpoint yields, or two empty
  strings when none qualifies); \<open>makeRoute\<close> returns \<open>ErrNoValidLoadbalancerDomain\<close> if and
  only if the rule is not cluster-local, the disable marker is absent, and either no
  endpoint qualifies or the last qualifying one yields an empty service name or an empty
  namespace.
\<close>

theorem makeRoute_error_iff:
  "resolveBackend ci =
     (if qualifying (endpoints ci) = [] then ('''', '''') else last (qualifying (endpoints ci)))
   \<and> ((\<exists>h'. makeRoute x h ci host rule = Return (h', None, Some ErrNoValidLoadbalancerDomain))
        \<longleftrightarrow> (Visibility rule \<noteq> IngressVisibilityClusterLocal
             \<and> \<not> map_has h (GetAnnotations ci) DisableRouteAnnotation
             \<and> (qualifying (endpoints ci) = []
                  \<or> fst (last (qualifying (endpoints ci))) = ''''
                  \<or> snd (last (qualifying (endpoints ci))) = '''')))"
proof -
  have r: "resolveBackend ci =
     (if qualifying (endpoints ci) = [] then ('''', '''') else last (qualifying (endpoints ci)))"
    by (rule resolveBackend_last)
  obtain s n where sn: "resolveBackend ci = (s, n)" by (cases "resolveBackend ci")
  have e: "(s = '''' \<or> n = '''') \<longleftrightarrow>
             (qualifying (endpoints ci) = []
                  \<or> fst (last (qualifying (endpoints ci))) = ''''
                  \<or> snd (last (qualifying (endpoints ci))) = '''')"
  proof (cases "qualifying (endpoints ci) = []")
    case True
    then show ?thesis using r sn by simp
  next
    case False
    then have "last (qualifying (endpoints ci)) = (s, n)" using r sn by simp
    then show ?thesis using False by simp
  qed
  have "(\<exists>h'. makeRoute x h ci host rule = Return (h', None, Some ErrNoValidLoadbalancerDomain))
        \<longleftrightarrow> (Visibility rule \<noteq> IngressVisibilityClusterLocal
             \<and> \<not> map_has h (GetAnnotations ci) DisableRouteAnnotation
             \<and> (s = '''' \<or> n = ''''))"
    by (auto simp: makeRoute_def sn make_map_def setTimeouts_Some split: option.splits)
  with r e show ?thesis by simp
qed

text \<open>
  With the internal domain "kourier.knative-serving-ingress.svc.cluster.local" the
  service is "kourier", the namespace "knative-serving-ingress", and there is no error;
  with the two endpoints above there is one.
\<close>

theorem makeRoute_error_iff_example:
  "resolveBackend kourier_ingress = (''kourier'', ''knative-serving-ingress'')
   \<and> \<not> (\<exists>h'. makeRoute example_extern empty_heap kourier_ingress ''foo.example.com''
                  example_rule = Return (h', None, Some ErrNoValidLoadbalancerDomain))
   \<and> (\<exists>h'. makeRoute example_extern empty_heap two_endpoint_ingress ''foo.example.com''
                  example_rule = Return (h', None, Some ErrNoValidLoadbalancerDomain))"
  using makeRoute_error_iff [of kourier_ingress example_extern empty_heap
          "''foo.example.com''" example_rule]
        makeRoute_error_iff [of two_endpoint_ingress example_extern empty_heap
          "''foo.example.com''" example_rule]
  by (simp add: more_eval example_defs GetAnnotations_def split_dot_def)

subsection \<open>C4: fail-fast, all or nothing\<close>

text \<open>
  C4: take the results of \<open>makeRoute\<close> for the hosts that get a route, in rule and host
  order. If one of them carries an error, \<open>MakeRoutes\<close> returns the first such error
  with a nil slice, and the store as that call left it. If none does, \<open>MakeRoutes\<close>
  returns a nil error with the routes of all the results that have one, in that order.
  Either way the slice is nil exactly when the error is not.
\<close>

theorem MakeRoutes_fail_fast:
  "MakeRoutes x h ci =
     (case first_error (invocations x ci (externalHosts ci) h) of
        Some (h', e) \<Rightarrow> Return (h', None, Some e)
      | None \<Rightarrow> Return (final_heap h (invocations x ci (externalHosts ci) h),
                         Some (produced (invocations x ci (externalHosts ci) h)), None))
   \<and> (\<forall>h' routes err. MakeRoutes x h ci = Return (h', routes, err) \<longrightarrow>
         (routes = None) = (err \<noteq> None))"
proof -
  have eq: "MakeRoutes x h ci =
     (case first_error (invocations x ci (externalHosts ci) h) of
        Some (h', e) \<Rightarrow> Return (h', None, Some e)
      | None \<Rightarrow> Return (final_heap h (invocations x ci (externalHosts ci) h),
                         Some (produced (invocations x ci (externalHosts ci) h)), None))"
    using collect_invocations [of x ci "externalHosts ci" h "[]"]
    by (simp add: MakeRoutes_collect cong: option.case_cong)
  have "\<forall>h' routes err. MakeRoutes x h ci = Return (h', routes, err) \<longrightarrow>
         (routes = None) = (err \<noteq> None)"
  proof (cases "first_error (invocations x ci (externalHosts ci) h)")
    case None
    then show ?thesis using eq by simp
  next
    case (Some p)
    then show ?thesis using eq by (cases p) simp
  qed
  with eq show ?thesis by (rule conjI)
qed

text \<open>
  The ingress with a cluster-local rule and two external rules gives the routes of
  "foo.example.com" and "bar.example.com", in this order; without load-balancer status
  it gives the error and a nil slice.
\<close>

theorem MakeRoutes_fail_fast_example:
  "(case MakeRoutes example_extern empty_heap mixed_ingress of
      Panic \<Rightarrow> None
    | Return (h', routes, err) \<Rightarrow> Some (map_option (map (\<lambda>r. Host (Spec r))) routes, err))
     = Some (Some [''foo.example.com'', ''bar.example.com''], None)
   \<and> (case MakeRoutes example_extern empty_heap (mixed_ingress\<lparr>PublicLoadBalancer := None\<rparr>) of
      Panic \<Rightarrow> None
    | Return (h', routes, err) \<Rightarrow> Some (routes, err))
     = Some (None, Some ErrNoValidLoadbalancerDomain)"
  using MakeRoutes_fail_fast [of example_extern empty_heap mixed_ingress, THEN conjunct1]
        MakeRoutes_fail_fast [of example_extern empty_heap
          "mixed_ingress\<lparr>PublicLoadBalancer := None\<rparr>", THEN conjunct1]
  by (simp add: route_eval more_eval newRoute_def)

subsection \<open>C5: which hosts get a route\<close>

text \<open>
  C5: \<open>MakeRoutes\<close> is route construction invoked, in order and until an error ends the
  run, on exactly the hosts of the rules that are not cluster-local whose split on "."
  has more than two segments, the third not being "svc". Every route it returns is for
  such a host, so a host with "svc" as third segment has none; and when the disable
  marker is absent, the hosts of the routes returned are exactly these hosts, in order.
\<close>

theorem MakeRoutes_external_hosts:
  "MakeRoutes x h ci =
     (case collect x ci
             [(rule, host). rule \<leftarrow> Rules ci,
                            Visibility rule \<noteq> IngressVisibilityClusterLocal,
                            host \<leftarrow> Hosts rule,
                            length (split_dot host) > 2 \<and> split_dot host ! 2 \<noteq> ''svc''] h [] of
        Panic \<Rightarrow> Panic
      | Return (h', Inl e) \<Rightarrow> Return (h', None, Some e)
      | Return (h', Inr routes) \<Rightarrow> Return (h', Some routes, None))
   \<and> (\<forall>h' routes err. MakeRoutes x h ci = Return (h', Some routes, err) \<longrightarrow>
         (\<forall>r \<in> set routes. length (split_dot (Host (Spec r))) > 2
                              \<and> split_dot (Host (Spec r)) ! 2 \<noteq> ''svc'')
         \<and> (\<not> map_has h (GetAnnotations ci) DisableRouteAnnotation \<longrightarrow>
               map (\<lambda>r. Host (Spec r)) routes =
                 [host. rule \<leftarrow> Rules ci,
                        Visibility rule \<noteq> IngressVisibilityClusterLocal,
                        host \<leftarrow> Hosts rule,
                        length (split_dot host) > 2 \<and> split_dot host ! 2 \<noteq> ''svc'']))"
proof (intro conjI allI impI ballI)
  show "MakeRoutes x h ci =
     (case collect x ci
             [(rule, host). rule \<leftarrow> Rules ci,
                            Visibility rule \<noteq> IngressVisibilityClusterLocal,
                            host \<leftarrow> Hosts rule,
                            length (split_dot host) > 2 \<and> split_dot host ! 2 \<noteq> ''svc''] h [] of
        Panic \<Rightarrow> Panic
      | Return (h', Inl e) \<Rightarrow> Return (h', None, Some e)
      | Return (h', Inr routes) \<Rightarrow> Return (h', Some routes, None))"
    using MakeRoutes_collect [of x h ci] by (simp add: externalHosts_def)
next
  fix h' routes err r
  assume m: "MakeRoutes x h ci = Return (h', Some routes, err)" and r: "r \<in> set routes"
  from MakeRoutes_route_origin [OF m r]
  obtain rule where "(rule, Host (Spec r)) \<in> set (externalHosts ci)" by blast
  then have e: "length (split_dot (Host (Spec r))) > 2 \<and> split_dot (Host (Spec r)) ! 2 \<noteq> ''svc''"
    by (simp add: set_externalHosts)
  from e show "length (split_dot (Host (Spec r))) > 2" by simp
  from e show "split_dot (Host (Spec r)) ! 2 \<noteq> ''svc''" by simp
next
  fix h' routes err
  assume m: "MakeRoutes x h ci = Return (h', Some routes, err)"
    and d: "\<not> map_has h (GetAnnotations ci) DisableRouteAnnotation"
  have "map snd (externalHosts ci) =
          [host. rule \<leftarrow> Rules ci,
                 Visibility rule \<noteq> IngressVisibilityClusterLocal,
                 host \<leftarrow> Hosts rule,
                 length (split_dot host) > 2 \<and> split_dot host ! 2 \<noteq> ''svc'']"
    unfolding externalHosts_def by (rule map_snd_rules)
  with MakeRoutes_enabled_hosts [OF d m]
  show "map (\<lambda>r. Host (Spec r)) routes =
          [host. rule \<leftarrow> Rules ci,
                 Visibility rule \<noteq> IngressVisibilityClusterLocal,
                 host \<leftarrow> Hosts rule,
                 length (split_dot host) > 2 \<and> split_dot host ! 2 \<noteq> ''svc'']"
    by simp
qed

text \<open>
  Of the hosts "foo.default", "foo.default.svc", "foo.default.svc.cluster.local" (in a
  cluster-local rule), "foo.example.com", "bar.example.com",
  "myksvc.myproject.svc.cluster.local" and "foo.com", the second and the third external
  ones are passed over and two routes come out.
\<close>

theorem MakeRoutes_external_hosts_example:
  "(case MakeRoutes example_extern empty_heap mixed_ingress of
      Panic \<Rightarrow> None
    | Return (h', routes, err) \<Rightarrow> Some (map_option (map (\<lambda>r. Host (Spec r))) routes, err))
     = Some (Some [''foo.example.com'', ''bar.example.com''], None)"
  using MakeRoutes_external_hosts [of example_extern empty_heap mixed_ingress, THEN conjunct1]
  by (simp add: route_eval more_eval newRoute_def)

subsection \<open>C6: skipping is not an error\<close>

text \<open>
  C6 as stated, that no resource for the hosts of a cluster-local rule appears in the
  output of \<open>MakeRoutes\<close>, fails for a host that a rule which is not cluster-local lists
  too: the filter is on the rule, not on the host. With a cluster-local rule and an
  external rule that both list "foo.example.com", \<open>makeRoute\<close> returns a nil route and a
  nil error for the host under the cluster-local rule, and the output of \<open>MakeRoutes\<close>
  has a route for "foo.example.com".
\<close>

theorem cluster_local_host_gets_route:
  "Visibility shared_local_rule = IngressVisibilityClusterLocal
   \<and> Hosts shared_local_rule = [''foo.example.com'']
   \<and> Rules shared_host_ingress = [shared_local_rule, example_rule]
   \<and> (case makeRoute example_extern empty_heap shared_host_ingress ''foo.example.com''
              shared_local_rule of
         Panic \<Rightarrow> None
       | Return (h', route, err) \<Rightarrow> Some (route, err))
      = Some (None, None)
   \<and> (case MakeRoutes example_extern empty_heap shared_host_ingress of
         Panic \<Rightarrow> None
       | Return (h', routes, err) \<Rightarrow> Some (map_option (map (\<lambda>r. Host (Spec r))) routes, err))
      = Some (Some [''foo.example.com''], None)"
  by (simp add: shared_local_rule_def shared_host_ingress_def MakeRoutes_def route_eval
        newRoute_def)

text \<open>
  C6, amended: when the rule is cluster-local or the annotations of the ingress hold the
  disable marker, \<open>makeRoute\<close> returns a nil route and a nil error, whatever the host.
  With the marker, \<open>MakeRoutes\<close> returns an empty slice and no error and leaves the store
  as it was; so it does when every rule is cluster-local. A cluster-local rule
  contributes nothing: the loop over the rules, and \<open>MakeRoutes\<close>, do with the rule in
  the list what they do without it. So every route that \<open>MakeRoutes\<close> returns is for a
  host of a rule that is not cluster-local, and a host that only cluster-local rules list
  has no route in the output.
\<close>

theorem skip_conditions:
  "(Visibility rule = IngressVisibilityClusterLocal
      \<or> map_has h (GetAnnotations ci) DisableRouteAnnotation
    \<longrightarrow> (\<exists>h'. makeRoute x h ci host rule = Return (h', None, None)))
   \<and> (map_has h (GetAnnotations ci) DisableRouteAnnotation
        \<longrightarrow> MakeRoutes x h ci = Return (h, Some [], None))
   \<and> ((\<forall>rule \<in> set (Rules ci). Visibility rule = IngressVisibilityClusterLocal)
        \<longrightarrow> MakeRoutes x h ci = Return (h, Some [], None))
   \<and> (\<forall>h' routes err. MakeRoutes x h ci = Return (h', Some routes, err) \<longrightarrow>
         (\<forall>r \<in> set routes. \<exists>rule \<in> set (Rules ci).
            Visibility rule \<noteq> IngressVisibilityClusterLocal
            \<and> Host (Spec r) \<in> set (Hosts rule)))
   \<and> (Visibility lrule = IngressVisibilityClusterLocal \<longrightarrow>
         rulesLoop x ci (rs1 @ lrule # rs2) h routes0 = rulesLoop x ci (rs1 @ rs2) h routes0)
   \<and> (Visibility lrule = IngressVisibilityClusterLocal \<and> Rules ci = rs1 @ lrule # rs2 \<longrightarrow>
         MakeRoutes x h ci = MakeRoutes x h (ci\<lparr>Rules := rs1 @ rs2\<rparr>))
   \<and> ((\<forall>rule \<in> set (Rules ci).
           lhost \<in> set (Hosts rule) \<longrightarrow> Visibility rule = IngressVisibilityClusterLocal) \<longrightarrow>
         (\<forall>h' routes err. MakeRoutes x h ci = Return (h', Some routes, err) \<longrightarrow>
            lhost \<notin> (\<lambda>r. Host (Spec r)) ` set routes))"
proof (intro conjI allI impI ballI)
  assume "Visibility rule = IngressVisibilityClusterLocal
            \<or> map_has h (GetAnnotations ci) DisableRouteAnnotation"
  then show "\<exists>h'. makeRoute x h ci host rule = Return (h', None, None)"
    by (auto simp: makeRoute_def make_map_def split: option.splits)
next
  assume "map_has h (GetAnnotations ci) DisableRouteAnnotation"
  then show "MakeRoutes x h ci = Return (h, Some [], None)"
    by (rule MakeRoutes_disabled)
next
  assume "\<forall>rule \<in> set (Rules ci). Visibility rule = IngressVisibilityClusterLocal"
  then have "externalHosts ci = []"
    by (auto simp: externalHosts_def)
  then show "MakeRoutes x h ci = Return (h, Some [], None)"
    by (simp add: MakeRoutes_collect)
next
  fix h' routes err r
  assume m: "MakeRoutes x h ci = Return (h', Some routes, err)" and r: "r \<in> set routes"
  from MakeRoutes_route_origin [OF m r]
  obtain rule where "(rule, Host (Spec r)) \<in> set (externalHosts ci)" by blast
  then have "rule \<in> set (Rules ci) \<and> Visibility rule \<noteq> IngressVisibilityClusterLocal
               \<and> Host (Spec r) \<in> set (Hosts rule)"
    by (simp add: set_externalHosts)
  then show "\<exists>rule \<in> set (Rules ci).
               Visibility rule \<noteq> IngressVisibilityClusterLocal
               \<and> Host (Spec r) \<in> set (Hosts rule)"
    by blast
next
  assume "Visibility lrule = IngressVisibilityClusterLocal"
  then show "rulesLoop x ci (rs1 @ lrule # rs2) h routes0 = rulesLoop x ci (rs1 @ rs2) h routes0"
    by (rule rulesLoop_drop_local)
next
  assume "Visibility lrule = IngressVisibilityClusterLocal \<and> Rules ci = rs1 @ lrule # rs2"
  then show "MakeRoutes x h ci = MakeRoutes x h (ci\<lparr>Rules := rs1 @ rs2\<rparr>)"
    using MakeRoutes_drop_local by blast
next
  fix h' routes err
  assume only: "\<forall>rule \<in> set (Rules ci).
           lhost \<in> set (Hosts rule) \<longrightarrow> Visibility rule = IngressVisibilityClusterLocal"
    and m: "MakeRoutes x h ci = Return (h', Some routes, err)"
  show "lhost \<notin> (\<lambda>r. Host (Spec r)) ` set routes"
  proof
    assume "lhost \<in> (\<lambda>r. Host (Spec r)) ` set routes"
    then obtain r where r: "r \<in> set routes" and hr: "Host (Spec r) = lhost" by auto
    from MakeRoutes_route_origin [OF m r]
    obtain rule where "(rule, Host (Spec r)) \<in> set (externalHosts ci)" by blast
    then have "rule \<in> set (Rules ci) \<and> Visibility rule \<noteq> IngressVisibilityClusterLocal
               \<and> lhost \<in> set (Hosts rule)"
      using hr by (simp add: set_externalHosts)
    with only show False by blast
  qed
qed

text \<open>
  A cluster-local rule, an ingress whose annotations hold the marker, an ingress with
  cluster-local rules only, and the ingress of three rules, which gives what it gives
  without its cluster-local rule.
\<close>

theorem skip_conditions_example:
  "(\<exists>h'. makeRoute example_extern empty_heap example_ingress ''foo.default.svc'' local_rule
            = Return (h', None, None))
   \<and> (\<exists>h'. makeRoute example_extern disabled_heap annotated_ingress ''foo.example.com''
            example_rule = Return (h', None, None))
   \<and> MakeRoutes example_extern disabled_heap annotated_ingress
        = Return (disabled_heap, Some [], None)
   \<and> MakeRoutes example_extern empty_heap (example_ingress\<lparr>Rules := [local_rule]\<rparr>)
        = Return (empty_heap, Some [], None)
   \<and> MakeRoutes example_extern empty_heap mixed_ingress
        = MakeRoutes example_extern empty_heap
            (example_ingress\<lparr>Rules := [example_rule, mixed_rule]\<rparr>)"
  using skip_conditions [of local_rule empty_heap example_ingress example_extern
          "''foo.default.svc''"]
        skip_conditions [of example_rule disabled_heap annotated_ingress example_extern
          "''foo.example.com''"]
        skip_conditions [of example_rule empty_heap "example_ingress\<lparr>Rules := [local_rule]\<rparr>"
          example_extern "''foo.example.com''"]
        skip_conditions [where lrule = local_rule and ?rs1.0 = "[]"
          and ?rs2.0 = "[example_rule, mixed_rule]" and ci = mixed_ingress
          and x = example_extern and h = empty_heap]
  by (simp add: more_eval example_defs annotated_ingress_def disabled_heap_def GetAnnotations_def)

subsection \<open>C7: the timeout annotation\<close>

text \<open>
  C7: when the rule declares HTTP paths, the annotation map of a route that \<open>makeRoute\<close>
  returns holds, under the timeout key, the value of the last path: the seconds of its
  timeout followed by "s" when it has one, the default timeout string otherwise. A
  timeout of 600 seconds gives "600s". The seconds are written as follows: a timeout of
  \<open>s\<close> whole seconds, \<open>s\<close> below one million in magnitude, gives the decimal numeral of
  \<open>s\<close> (with a minus sign when negative); any other timeout gives what \<^verbatim>\<open>%v\<close> writes
  for the float64 of its seconds, which the model takes as given. The default string is
  the decimal numeral of the configured number of seconds followed by "s". The decimal
  numeral of a number has digits only, no leading zero, and denotes that number.
\<close>

theorem makeRoute_timeout_annotation:
  assumes "makeRoute x h ci host rule = Return (h', Some r, err)"
    and "HTTP rule = Some http" and "Paths http \<noteq> []"
  shows "(\<exists>a. Annotations (RouteMeta r) = Some a
            \<and> cells h' a TimeoutAnnotation = Some (timeoutValue x (last (Paths http))))
    \<and> timeoutValue x p =
         (case DeprecatedTimeout p of
            Some d \<Rightarrow> sprint_seconds x d @ ''s''
          | None \<Rightarrow> sprint_int (DefaultMaxRevisionTimeoutSeconds x) @ ''s'')
    \<and> sprint_seconds x 600000000000 @ ''s'' = ''600s''
    \<and> (0 \<le> s \<and> s < 1000000 \<longrightarrow>
          sprint_seconds x (s * 1000000000) = digits10 (nat s))
    \<and> (s < 0 \<and> - 1000000 < s \<longrightarrow>
          sprint_seconds x (s * 1000000000) = CHR ''-'' # digits10 (nat (- s)))
    \<and> (d mod 1000000000 \<noteq> 0 \<or> 1000000 \<le> \<bar>d div 1000000000\<bar> \<longrightarrow>
          sprint_seconds x d = FormatFloat x d)
    \<and> (0 \<le> DefaultMaxRevisionTimeoutSeconds x \<longrightarrow>
          defaultTimeout x = digits10 (nat (DefaultMaxRevisionTimeoutSeconds x)) @ ''s'')
    \<and> decimal_value (digits10 n) = n
    \<and> set (digits10 n) \<subseteq> set ''0123456789''
    \<and> digits10 n \<noteq> []
    \<and> (n \<noteq> 0 \<longrightarrow> hd (digits10 n) \<noteq> CHR ''0'')"
proof (intro conjI impI)
  show "\<exists>a. Annotations (RouteMeta r) = Some a
            \<and> cells h' a TimeoutAnnotation = Some (timeoutValue x (last (Paths http)))"
    using assms
    by (cases "GetAnnotations ci")
       (auto simp: makeRoute_def make_map_def setTimeouts_Some newRoute_def
        split: option.splits prod.splits if_splits)
  show "timeoutValue x p =
         (case DeprecatedTimeout p of
            Some d \<Rightarrow> sprint_seconds x d @ ''s''
          | None \<Rightarrow> sprint_int (DefaultMaxRevisionTimeoutSeconds x) @ ''s'')"
    by (simp add: timeoutValue_def defaultTimeout_def cong: option.case_cong)
  show "sprint_seconds x 600000000000 @ ''s'' = ''600s''"
    by (simp add: sprint_seconds_def sprint_int_def digits10_numeral)
  show "sprint_seconds x (s * 1000000000) = digits10 (nat s)" if "0 \<le> s \<and> s < 1000000"
    using that by (simp add: sprint_seconds_whole)
  show "sprint_seconds x (s * 1000000000) = CHR ''-'' # digits10 (nat (- s))"
    if "s < 0 \<and> - 1000000 < s"
    using that by (simp add: sprint_seconds_whole_neg)
  show "sprint_seconds x d = FormatFloat x d"
    if "d mod 1000000000 \<noteq> 0 \<or> 1000000 \<le> \<bar>d div 1000000000\<bar>"
    using that by (rule sprint_seconds_other)
  show "defaultTimeout x = digits10 (nat (DefaultMaxRevisionTimeoutSeconds x)) @ ''s''"
    if "0 \<le> DefaultMaxRevisionTimeoutSeconds x"
    using that by (simp add: defaultTimeout_def sprint_int_def)
  show "decimal_value (digits10 n) = n" by (rule decimal_value_digits10)
  show "set (digits10 n) \<subseteq> set ''0123456789''" by (rule set_digits10)
  show "digits10 n \<noteq> []" by (rule digits10_not_Nil)
  show "hd (digits10 n) \<noteq> CHR ''0''" if "n \<noteq> 0" using that by (rule hd_digits10)
qed

text \<open>
  The rule with a path of 600 seconds followed by a path without timeout: the last path
  decides, and with a default of 300 seconds the annotation is "300s". Timeouts of 5,
  of -5 and of 600 seconds are written "5", "-5" and "600"; one of 1.5 seconds is left to
  the float formatting.
\<close>

theorem makeRoute_timeout_annotation_example:
  "makeRoute example_extern empty_heap example_ingress ''bar.example.com'' mixed_rule =
     Return (heap_with_timeout ''300s'', Some (example_route ''bar.example.com''), None)
   \<and> Annotations (RouteMeta (example_route ''bar.example.com'')) = Some 0
   \<and> cells (heap_with_timeout ''300s'') 0 TimeoutAnnotation = Some ''300s''
   \<and> timeoutValue example_extern \<lparr>DeprecatedTimeout = None\<rparr> = ''300s''
   \<and> timeoutValue example_extern \<lparr>DeprecatedTimeout = Some 600000000000\<rparr> = ''600s''
   \<and> sprint_seconds example_extern (5 * 1000000000) = digits10 5
   \<and> digits10 5 = ''5''
   \<and> sprint_seconds example_extern (- 5 * 1000000000) = ''-5''
   \<and> sprint_seconds example_extern 1500000000 = FormatFloat example_extern 1500000000
   \<and> decimal_value (digits10 600) = 600
   \<and> digits10 600 = ''600''"
  using makeRoute_mixed_example
    makeRoute_timeout_annotation [OF makeRoute_mixed_example,
          of "\<lparr>Paths = [\<lparr>DeprecatedTimeout = Some 600000000000\<rparr>,
                           \<lparr>DeprecatedTimeout = None\<rparr>]\<rparr>"
             "\<lparr>DeprecatedTimeout = Some 600000000000\<rparr>" 5 1500000000 600]
    makeRoute_timeout_annotation [OF makeRoute_mixed_example,
          of "\<lparr>Paths = [\<lparr>DeprecatedTimeout = Some 600000000000\<rparr>,
                           \<lparr>DeprecatedTimeout = None\<rparr>]\<rparr>"
             "\<lparr>DeprecatedTimeout = None\<rparr>" "- 5" 1500000000 5]
  by (simp add: mixed_rule_def newRoute_def example_extern_def sprint_int_def
        digits10_numeral example_route_def heap_with_timeout_def)

subsection \<open>C8: the route that is built\<close>

text \<open>
  C8: a route that \<open>makeRoute\<close> returns comes with a nil error and has the name
  \<open>routeName\<close> gives, the resolved namespace, the input host, a target of kind
  "Service" named as the resolved service with weight 100, edge termination with insecure
  traffic allowed, the wildcard policy none, the named target port "http2", and the labels
  of the ingress with the ingress label key set to the name of the ingress, whatever the
  ingress had under that key.
\<close>

theorem makeRoute_route_fields:
  assumes "makeRoute x h ci host rule = Return (h', Some r, err)"
  shows "err = None
    \<and> Name (RouteMeta r) = routeName (GetUID ci) host
    \<and> Namespace (RouteMeta r) = snd (resolveBackend ci)
    \<and> Host (Spec r) = host
    \<and> Kind (To (Spec r)) = ''Service''
    \<and> RefName (To (Spec r)) = fst (resolveBackend ci)
    \<and> Weight (To (Spec r)) = Some 100
    \<and> TLS (Spec r) = Some \<lparr>Termination = TLSTerminationEdge,
                             InsecureEdgeTerminationPolicy = InsecureEdgeTerminationPolicyAllow\<rparr>
    \<and> WildcardPolicy (Spec r) = WildcardPolicyNone
    \<and> Port (Spec r) = Some \<lparr>TargetPort = FromString ''http2''\<rparr>
    \<and> Labels (RouteMeta r) = (Labels (IngressMeta ci))(IngressLabelKey x \<mapsto> GetName ci)"
  using assms
  by (auto simp: makeRoute_def make_map_def setTimeouts_Some newRoute_def UnionMaps_def
        KourierHTTPPort_def
      split: option.splits prod.splits if_splits)

text \<open>
  The example of the specification: owner id "abc123", host "foo.example.com", internal
  domain "kourier.ns.svc.cluster.local".
\<close>

theorem makeRoute_route_fields_example:
  "makeRoute example_extern empty_heap example_ingress ''foo.example.com'' example_rule =
     Return (heap_with_timeout ''600s'', Some (example_route ''foo.example.com''), None)
   \<and> Name (RouteMeta (example_route ''foo.example.com'')) = ''route-abc123-343561333335''
   \<and> Namespace (RouteMeta (example_route ''foo.example.com'')) = ''ns''
   \<and> RefName (To (Spec (example_route ''foo.example.com''))) = ''kourier''
   \<and> resolveBackend example_ingress = (''kourier'', ''ns'')
   \<and> Labels (RouteMeta (example_route ''foo.example.com''))
        = [''networking.internal.knative.dev/ingress'' \<mapsto> ''ing'']"
  using makeRoute_example makeRoute_route_fields [OF makeRoute_example]
  by (simp add: routeName_def hashHost_foo_example_com sprint_hex_def hex_byte_def bytes_of_def
        GetUID_def GetName_def example_ingress_def example_extern_def newRoute_def
        example_route_def)

subsection \<open>C9: an ingress without annotation map\<close>

text \<open>
  C9: when the annotation map of the ingress is nil, \<open>makeRoute\<close> does not panic; the
  annotation map of a route it returns is the fresh one (at the address \<open>next_free\<close>) and
  holds the timeout annotation of the last path and nothing else when the rule declares
  HTTP paths, nothing at all otherwise; and a route is returned whenever the rule is not
  cluster-local and the backend resolves.
\<close>

theorem makeRoute_nil_annotations:
  assumes "GetAnnotations ci = None"
  shows "makeRoute x h ci host rule \<noteq> Panic
    \<and> (\<forall>h' r err. makeRoute x h ci host rule = Return (h', Some r, err) \<longrightarrow>
          Annotations (RouteMeta r) = Some (next_free h)
          \<and> cells h' (next_free h) =
               (case HTTP rule of
                  None \<Rightarrow> Map.empty
                | Some http \<Rightarrow>
                    if Paths http = [] then Map.empty
                    else [TimeoutAnnotation \<mapsto> timeoutValue x (last (Paths http))]))
    \<and> (Visibility rule \<noteq> IngressVisibilityClusterLocal
          \<and> fst (resolveBackend ci) \<noteq> '''' \<and> snd (resolveBackend ci) \<noteq> ''''
         \<longrightarrow> (\<exists>h' r. makeRoute x h ci host rule = Return (h', Some r, None)))"
proof (intro conjI allI impI)
  show "makeRoute x h ci host rule \<noteq> Panic"
    by (rule makeRoute_no_panic)
next
  fix h' r err
  assume m: "makeRoute x h ci host rule = Return (h', Some r, err)"
  from m assms show "Annotations (RouteMeta r) = Some (next_free h)"
    by (auto simp: makeRoute_def make_map_def setTimeouts_Some newRoute_def
        split: option.splits prod.splits if_splits)
  from m assms show "cells h' (next_free h) =
               (case HTTP rule of
                  None \<Rightarrow> Map.empty
                | Some http \<Rightarrow>
                    if Paths http = [] then Map.empty
                    else [TimeoutAnnotation \<mapsto> timeoutValue x (last (Paths http))])"
    by (auto simp: makeRoute_def make_map_def setTimeouts_Some newRoute_def
        split: option.splits prod.splits if_splits)
next
  assume "Visibility rule \<noteq> IngressVisibilityClusterLocal
          \<and> fst (resolveBackend ci) \<noteq> '''' \<and> snd (resolveBackend ci) \<noteq> ''''"
  with assms show "\<exists>h' r. makeRoute x h ci host rule = Return (h', Some r, None)"
    by (auto simp: makeRoute_def make_map_def setTimeouts_Some
        split: option.splits prod.splits if_splits)
qed

text \<open>The example ingress has no annotation map; its route has the timeout and no more.\<close>

theorem makeRoute_nil_annotations_example:
  "GetAnnotations example_ingress = None
   \<and> makeRoute example_extern empty_heap example_ingress ''foo.example.com'' example_rule
        \<noteq> Panic
   \<and> makeRoute example_extern empty_heap example_ingress ''foo.example.com'' example_rule
        = Return (heap_with_timeout ''600s'', Some (example_route ''foo.example.com''), None)
   \<and> Annotations (RouteMeta (example_route ''foo.example.com'')) = Some (next_free empty_heap)
   \<and> cells (heap_with_timeout ''600s'') (next_free empty_heap)
        = [TimeoutAnnotation \<mapsto> ''600s'']"
proof -
  have nil: "GetAnnotations example_ingress = None"
    by (simp add: GetAnnotations_def example_ingress_def)
  note t = makeRoute_nil_annotations [OF nil, of example_extern empty_heap "''foo.example.com''"
         example_rule]
  from t have np:
    "makeRoute example_extern empty_heap example_ingress ''foo.example.com'' example_rule
       \<noteq> Panic"
    by (rule conjunct1)
  from t [THEN conjunct2, THEN conjunct1, rule_format, OF makeRoute_example]
  have a: "Annotations (RouteMeta (example_route ''foo.example.com''))
             = Some (next_free empty_heap)"
    and c: "cells (heap_with_timeout ''600s'') (next_free empty_heap)
        = (case HTTP example_rule of
             None \<Rightarrow> Map.empty
           | Some http \<Rightarrow>
               if Paths http = [] then Map.empty
               else [TimeoutAnnotation \<mapsto> timeoutValue example_extern (last (Paths http))])"
    by blast+
  have "(case HTTP example_rule of
             None \<Rightarrow> Map.empty
           | Some http \<Rightarrow>
               if Paths http = [] then Map.empty
               else [TimeoutAnnotation \<mapsto> timeoutValue example_extern (last (Paths http))])
        = [TimeoutAnnotation \<mapsto> ''600s'']"
    by (simp add: example_rule_def timeoutValue_def sprint_seconds_def sprint_int_def
          digits10_numeral)
  with c have "cells (heap_with_timeout ''600s'') (next_free empty_heap)
        = [TimeoutAnnotation \<mapsto> ''600s'']"
    by (rule trans)
  with nil np a makeRoute_example show ?thesis by (intro conjI)
qed

subsection \<open>C10: hosts of one or two segments\<close>

text \<open>
  C10: a host whose split on "." has two segments or fewer gets no route and causes no
  error. Every route that \<open>MakeRoutes\<close> returns is for a host of more than two segments;
  an error only comes with a host of more than two segments in the ingress; an ingress
  whose hosts all have two segments or fewer gives an empty slice and no error and
  leaves the store as it was, even without any load-balancer status; and the loop over
  the hosts of a rule does with such a host in the list what it does without it.
\<close>

theorem MakeRoutes_short_hosts:
  "(\<forall>h' routes err. MakeRoutes x h ci = Return (h', Some routes, err) \<longrightarrow>
      (\<forall>r \<in> set routes. length (split_dot (Host (Spec r))) > 2))
   \<and> (\<forall>h' routes e. MakeRoutes x h ci = Return (h', routes, Some e) \<longrightarrow>
         (\<exists>rule \<in> set (Rules ci). \<exists>host \<in> set (Hosts rule). length (split_dot host) > 2))
   \<and> ((\<forall>rule \<in> set (Rules ci). \<forall>host \<in> set (Hosts rule). length (split_dot host) \<le> 2)
         \<longrightarrow> MakeRoutes x h ci = Return (h, Some [], None))
   \<and> (length (split_dot host) \<le> 2 \<longrightarrow>
         hostsLoop x ci rule (hosts1 @ host # hosts2) h routes0
           = hostsLoop x ci rule (hosts1 @ hosts2) h routes0)"
proof (intro conjI allI impI ballI)
  fix h' routes err r
  assume m: "MakeRoutes x h ci = Return (h', Some routes, err)" and r: "r \<in> set routes"
  from MakeRoutes_route_origin [OF m r]
  obtain rule where "(rule, Host (Spec r)) \<in> set (externalHosts ci)" by blast
  then show "length (split_dot (Host (Spec r))) > 2"
    by (simp add: set_externalHosts)
next
  fix h' routes e
  assume "MakeRoutes x h ci = Return (h', routes, Some e)"
  then have "externalHosts ci \<noteq> []" by (rule MakeRoutes_error_origin)
  then obtain rule host where "(rule, host) \<in> set (externalHosts ci)"
    by (cases "externalHosts ci") auto
  then have "rule \<in> set (Rules ci) \<and> host \<in> set (Hosts rule) \<and> length (split_dot host) > 2"
    by (simp add: set_externalHosts)
  then show "\<exists>rule \<in> set (Rules ci). \<exists>host \<in> set (Hosts rule). length (split_dot host) > 2"
    by blast
next
  assume short: "\<forall>rule \<in> set (Rules ci). \<forall>host \<in> set (Hosts rule). length (split_dot host) \<le> 2"
  have "externalHosts ci = []"
  proof (rule ccontr)
    assume "externalHosts ci \<noteq> []"
    then obtain rule host where "(rule, host) \<in> set (externalHosts ci)"
      by (cases "externalHosts ci") auto
    then have "rule \<in> set (Rules ci) \<and> host \<in> set (Hosts rule) \<and> length (split_dot host) > 2"
      by (simp add: set_externalHosts)
    with short show False by fastforce
  qed
  then show "MakeRoutes x h ci = Return (h, Some [], None)"
    by (simp add: MakeRoutes_collect)
next
  assume "length (split_dot host) \<le> 2"
  then show "hostsLoop x ci rule (hosts1 @ host # hosts2) h routes0
           = hostsLoop x ci rule (hosts1 @ hosts2) h routes0"
    by (simp add: hostsLoop_collect)
qed

text \<open>
  The hosts "foo.com" and "localhost", in an ingress without load-balancer status: no
  route, no error.
\<close>

theorem MakeRoutes_short_hosts_example:
  "length (split_dot ''foo.com'') = 2
   \<and> MakeRoutes example_extern empty_heap
        (example_ingress\<lparr>Rules := [example_rule\<lparr>Hosts := [''foo.com'', ''localhost'']\<rparr>],
                         PublicLoadBalancer := None\<rparr>)
        = Return (empty_heap, Some [], None)"
  using MakeRoutes_short_hosts [of example_extern empty_heap
          "example_ingress\<lparr>Rules := [example_rule\<lparr>Hosts := [''foo.com'', ''localhost'']\<rparr>],
                           PublicLoadBalancer := None\<rparr>"]
  by (simp add: example_ingress_def example_rule_def split_dot_def)

end
